theory Spec2Isabelle
  imports Complex_Main "HOL-Library.Sublist"
begin

section \<open>JavaScript values\<close>

text \<open>
  The route handler of \<^verbatim>\<open>src/app/api/reviews/route.ts\<close> works on untyped data: the result
  of \<^verbatim>\<open>JSON.parse\<close> on the hydration state of the book page, and the result of
  \<^verbatim>\<open>response.json()\<close> on the answer of the review service. Such a value is a \<open>json\<close>;
  \<^verbatim>\<open>undefined\<close> is \<open>None\<close> of \<open>json option\<close>. An object is the list of its own
  properties in the order of \<^verbatim>\<open>Object.keys\<close>, with distinct keys. Numbers are rationals:
  a JSON text denotes no NaN, and the infinities, which only a literal beyond the range of
  a double parses to, are left out. Strings are lists of 8-bit characters, each standing
  for one code unit. Properties inherited from a prototype are not modelled.
\<close>

datatype json =
    JNull
  | JBool bool
  | JNum rat
  | JStr string
  | JArr "json list"
  | JObj "(string \<times> json) list"

type_synonym jsval = "json option"

text \<open>What the JavaScript runtime computes and this theory leaves open.\<close>

record runtime =
  JSON_parse :: "string \<Rightarrow> json option"  \<comment> \<open>\<open>None\<close>: \<^verbatim>\<open>JSON.parse\<close> throws\<close>
  StringToNumber :: "string \<Rightarrow> rat option"  \<comment> \<open>\<open>None\<close>: NaN\<close>
  ToString :: "json \<Rightarrow> string"  \<comment> \<open>of a value that is not a string\<close>
  toLocaleDateString :: "json \<Rightarrow> string"  \<comment> \<open>\<^verbatim>\<open>new Date(v).toLocaleDateString()\<close>\<close>

fun truthy :: "json \<Rightarrow> bool" where
  "truthy JNull = False"
| "truthy (JBool b) = b"
| "truthy (JNum r) = (r \<noteq> 0)"
| "truthy (JStr s) = (s \<noteq> [])"
| "truthy (JArr xs) = True"
| "truthy (JObj kvs) = True"

fun truthy_val :: "jsval \<Rightarrow> bool" where
  "truthy_val None = False"
| "truthy_val (Some v) = truthy v"

text \<open>\<^verbatim>\<open>a || b\<close>, and \<^verbatim>\<open>a || d\<close> for a default \<open>d\<close> that is not \<^verbatim>\<open>undefined\<close>.\<close>

definition or_val :: "jsval \<Rightarrow> jsval \<Rightarrow> jsval" where
  "or_val a b = (if truthy_val a then a else b)"

definition or_default :: "jsval \<Rightarrow> json \<Rightarrow> json" where
  "or_default a d = (case a of None \<Rightarrow> d | Some v \<Rightarrow> if truthy v then v else d)"

text \<open>
  \<^verbatim>\<open>x?.k\<close>: \<^verbatim>\<open>undefined\<close> on \<^verbatim>\<open>undefined\<close> and \<^verbatim>\<open>null\<close>, the own property \<open>k\<close> of an
  object. The handler reads the plain \<^verbatim>\<open>x.k\<close> only where \<open>x\<close> is known to be truthy
  (there it agrees with \<^verbatim>\<open>x?.k\<close>) and at \<^verbatim>\<open>edge.node\<close>, see \<open>edgeNode\<close>. No property
  name the handler writes out is an index, \<^verbatim>\<open>length\<close> or a property of a prototype of
  strings, arrays or objects, so a read by such a name finds own properties only. Reads
  by a computed key are \<open>getProp\<close> where the key comes from \<^verbatim>\<open>Object.keys\<close> of the same
  object, and \<open>lookup\<close> otherwise.
\<close>

fun getProp :: "jsval \<Rightarrow> string \<Rightarrow> jsval" where
  "getProp (Some (JObj kvs)) k = map_of kvs k"
| "getProp _ k = None"

text \<open>\<^verbatim>\<open>o[v]\<close> for a computed key \<open>v\<close>: the key is \<open>v\<close> converted to a string.\<close>

definition propKey :: "runtime \<Rightarrow> json \<Rightarrow> string" where
  "propKey rt v = (case v of JStr s \<Rightarrow> s | _ \<Rightarrow> ToString rt v)"

text \<open>
  \<^verbatim>\<open>apolloState[v]\<close> for a key \<open>v\<close> that the page chooses. Where the handler reads it,
  the state is an object that \<^verbatim>\<open>JSON.parse\<close> made (a key of a work was found among its
  keys, see \<open>readState_object\<close>), so behind its own properties are those of
  \<^verbatim>\<open>Object.prototype\<close>:
  the constructor \<^verbatim>\<open>Object\<close>, ten methods, each a function whose \<^verbatim>\<open>name\<close> is its key, and
  the accessor \<^verbatim>\<open>__proto__\<close>, which gives \<^verbatim>\<open>Object.prototype\<close> itself. What a lookup finds
  is an \<open>entity\<close>: a JSON value, a function with its name, or the prototype.
\<close>

datatype entity = Entity json | Method string | ObjectPrototype

definition inheritedProperty :: "string \<Rightarrow> entity option" where
  "inheritedProperty k =
     (if k = ''constructor'' then Some (Method ''Object'')
      else if k \<in> set [''__defineGetter__'', ''__defineSetter__'', ''hasOwnProperty'',
                       ''__lookupGetter__'', ''__lookupSetter__'', ''isPrototypeOf'',
                       ''propertyIsEnumerable'', ''toString'', ''valueOf'', ''toLocaleString'']
      then Some (Method k)
      else if k = ''__proto__'' then Some ObjectPrototype
      else None)"

definition lookup :: "runtime \<Rightarrow> json \<Rightarrow> json \<Rightarrow> entity option" where
  "lookup rt obj v =
     (case getProp (Some obj) (propKey rt v) of
        Some x \<Rightarrow> Some (Entity x)
      | None \<Rightarrow> (case obj of JObj kvs \<Rightarrow> inheritedProperty (propKey rt v) | _ \<Rightarrow> None))"

fun truthy_entity :: "entity option \<Rightarrow> bool" where
  "truthy_entity None = False"
| "truthy_entity (Some (Entity x)) = truthy x"
| "truthy_entity (Some (Method n)) = True"
| "truthy_entity (Some ObjectPrototype) = True"

text \<open>
  The three properties that the handler reads from what a lookup found: \<^verbatim>\<open>name\<close>,
  \<^verbatim>\<open>webUrl\<close> and \<^verbatim>\<open>node\<close>. A function has a \<^verbatim>\<open>name\<close> and neither of the others;
  \<^verbatim>\<open>Object.prototype\<close> has none of the three.
\<close>

fun entityName :: "entity option \<Rightarrow> jsval" where
  "entityName (Some (Entity x)) = getProp (Some x) ''name''"
| "entityName (Some (Method n)) = Some (JStr n)"
| "entityName _ = None"

fun entityWebUrl :: "entity option \<Rightarrow> jsval" where
  "entityWebUrl (Some (Entity x)) = getProp (Some x) ''webUrl''"
| "entityWebUrl _ = None"

fun entityNode :: "entity option \<Rightarrow> jsval" where
  "entityNode (Some (Entity x)) = getProp (Some x) ''node''"
| "entityNode _ = None"

definition digit :: "nat \<Rightarrow> char" where
  "digit d = ''0123456789'' ! (d mod 10)"

function decimal :: "nat \<Rightarrow> string" where
  "decimal n = (if n < 10 then [digit n] else decimal (n div 10) @ [digit n])"
  by pat_completeness auto
termination
  by (relation "measure id") auto

text \<open>
  \<^verbatim>\<open>Object.keys(x)\<close>; \<open>None\<close> when it throws (on \<^verbatim>\<open>undefined\<close> and \<^verbatim>\<open>null\<close>). The keys
  of an array or a string are its indices.
\<close>

fun objectKeys :: "jsval \<Rightarrow> string list option" where
  "objectKeys None = None"
| "objectKeys (Some JNull) = None"
| "objectKeys (Some (JObj kvs)) = Some (map fst kvs)"
| "objectKeys (Some (JArr xs)) = Some (map decimal [0..<length xs])"
| "objectKeys (Some (JStr s)) = Some (map decimal [0..<length s])"
| "objectKeys (Some (JBool b)) = Some []"
| "objectKeys (Some (JNum r)) = Some []"

text \<open>\<^verbatim>\<open>x >= 4\<close>: \<open>x\<close> is converted to a number, and NaN compares false.\<close>

fun toNumber :: "runtime \<Rightarrow> jsval \<Rightarrow> rat option" where
  "toNumber rt None = None"
| "toNumber rt (Some JNull) = Some 0"
| "toNumber rt (Some (JBool b)) = Some (if b then 1 else 0)"
| "toNumber rt (Some (JNum r)) = Some r"
| "toNumber rt (Some (JStr s)) = StringToNumber rt s"
| "toNumber rt (Some (JArr xs)) = StringToNumber rt (ToString rt (JArr xs))"
| "toNumber rt (Some (JObj kvs)) = StringToNumber rt (ToString rt (JObj kvs))"

definition ge4 :: "runtime \<Rightarrow> jsval \<Rightarrow> bool" where
  "ge4 rt x = (case toNumber rt x of None \<Rightarrow> False | Some r \<Rightarrow> 4 \<le> r)"

section \<open>Strings\<close>

abbreviation startsWith :: "string \<Rightarrow> string \<Rightarrow> bool" where
  "startsWith s p \<equiv> prefix p s"

fun includes_str :: "string \<Rightarrow> string \<Rightarrow> bool" where
  "includes_str [] p = (p = [])"
| "includes_str (c # cs) p = (prefix p (c # cs) \<or> includes_str cs p)"

text \<open>\<^verbatim>\<open>s.replace(pat, rep)\<close> for a string \<open>pat\<close>: the first occurrence only.\<close>

fun replaceFirst :: "string \<Rightarrow> string \<Rightarrow> string \<Rightarrow> string" where
  "replaceFirst pat rep [] = (if pat = [] then rep else [])"
| "replaceFirst pat rep (c # cs) =
     (if prefix pat (c # cs) then rep @ drop (length pat) (c # cs)
      else c # replaceFirst pat rep cs)"

subsection \<open>The markup pattern\<close>

text \<open>
  \<^verbatim>\<open>/<[^>]*>/\<close> at the start of a string: \<open>Some\<close> of what follows the match. After
  \<^verbatim>\<open><\<close> the class takes every character up to the next \<^verbatim>\<open>>\<close>, which closes the match;
  when there is none the match fails, since a shorter run of the class is again followed
  by a character that is not \<^verbatim>\<open>>\<close>.
\<close>

fun matchTag :: "string \<Rightarrow> string option" where
  "matchTag [] = None"
| "matchTag (c # cs) =
     (if c = CHR ''<'' then
        (case dropWhile (\<lambda>x. x \<noteq> CHR ''>'') cs of [] \<Rightarrow> None | g # rest \<Rightarrow> Some rest)
      else None)"

text \<open>
  \<^verbatim>\<open>s.replace(/<[^>]*>/g, "")\<close>: the matches are found from left to right, each search
  starting where the last match ended, and removed.
\<close>

function stripAllTags :: "string \<Rightarrow> string" where
  "stripAllTags [] = []"
| "stripAllTags (c # cs) =
     (case matchTag (c # cs) of
        Some rest \<Rightarrow> stripAllTags rest
      | None \<Rightarrow> c # stripAllTags cs)"
  by pat_completeness auto
termination
proof (relation "measure length")
  show "wf (measure length)" by simp
next
  fix c :: char and cs rest :: string
  assume m: "matchTag (c # cs) = Some rest"
  have "length (dropWhile (\<lambda>x. x \<noteq> CHR ''>'') cs) \<le> length cs"
    by (rule length_dropWhile_le)
  with m show "(rest, c # cs) \<in> measure length"
    by (auto split: if_splits list.splits)
next
  fix c :: char and cs :: string
  show "(cs, c # cs) \<in> measure length" by simp
qed

subsection \<open>The credential pattern\<close>

text \<open>
  \<^verbatim>\<open>/["']?(da2-[a-z0-9]+)["']?/i\<close>. Under the flag \<^verbatim>\<open>i\<close> a letter of the pattern
  matches both of its cases, and the class matches the ASCII letters and digits.
\<close>

definition isKeyChar :: "char \<Rightarrow> bool" where
  "isKeyChar c =
     (let n = (of_char c :: nat)
      in (97 \<le> n \<and> n \<le> 122) \<or> (65 \<le> n \<and> n \<le> 90) \<or> (48 \<le> n \<and> n \<le> 57))"

text \<open>The group \<^verbatim>\<open>(da2-[a-z0-9]+)\<close> at the start of a string: \<open>Some\<close> of the text it captures.\<close>

fun keyAt :: "string \<Rightarrow> string option" where
  "keyAt (c1 # c2 # c3 # c4 # cs) =
     (if (c1 = CHR ''d'' \<or> c1 = CHR ''D'') \<and> (c2 = CHR ''a'' \<or> c2 = CHR ''A'')
         \<and> c3 = CHR ''2'' \<and> c4 = CHR ''-'' \<and> takeWhile isKeyChar cs \<noteq> []
      then Some (c1 # c2 # c3 # c4 # takeWhile isKeyChar cs)
      else None)"
| "keyAt cs = None"

text \<open>
  The pattern at the start of a string. The optional quote is tried first; where the
  group fails after it, the pattern is tried again without it.
\<close>

fun patternAt :: "string \<Rightarrow> string option" where
  "patternAt [] = None"
| "patternAt (c # cs) =
     (if c = CHR 0x22 \<or> c = CHR 0x27 then
        (case keyAt cs of Some k \<Rightarrow> Some k | None \<Rightarrow> keyAt (c # cs))
      else keyAt (c # cs))"

text \<open>
  \<^verbatim>\<open>scriptContent.match(...)\<close>: the leftmost match; the result is \<^verbatim>\<open>apiKeyMatch[1]\<close>, or
  \<open>None\<close> for \<^verbatim>\<open>null\<close>.
\<close>

fun apiKeyMatch :: "string \<Rightarrow> string option" where
  "apiKeyMatch [] = None"
| "apiKeyMatch (c # cs) =
     (case patternAt (c # cs) of Some k \<Rightarrow> Some k | None \<Rightarrow> apiKeyMatch cs)"

subsection \<open>\<^verbatim>\<open>parseInt(s, 10)\<close>\<close>

text \<open>
  The result of \<^verbatim>\<open>parseInt\<close> is a double: NaN, an integer that a double represents, the
  negative zero, or an infinity.
\<close>

datatype number = NaN | Num int | NegZero | PosInfinity | NegInfinity

function bitLength :: "int \<Rightarrow> nat" where
  "bitLength m = (if m \<le> 0 then 0 else Suc (bitLength (m div 2)))"
  by pat_completeness auto
termination
  by (relation "measure nat") auto

text \<open>
  The double nearest to a positive integer \<open>m\<close>, as an integer: \<open>m\<close> itself when it has
  53 bits or fewer, and otherwise its leading 53 bits rounded to the nearest, to the even
  one when \<open>m\<close> is halfway. From \<open>2 ^ 1024\<close> on the double is an infinity. This is
  the conversion of the engine of Node; the language would also let an engine read the
  digits behind the twentieth as zeros.
\<close>

definition roundDouble :: "int \<Rightarrow> int" where
  "roundDouble m =
     (let e = bitLength m - 53
      in if e = 0 then m
         else (let q = m div 2 ^ e; r = m mod 2 ^ e; half = 2 ^ (e - 1)
               in (if half < r \<or> (r = half \<and> odd q) then q + 1 else q) * 2 ^ e))"

definition toDouble :: "bool \<Rightarrow> int \<Rightarrow> number" where
  "toDouble negative m =
     (if m = 0 then (if negative then NegZero else Num 0)
      else if 2 ^ 1024 \<le> roundDouble m then (if negative then NegInfinity else PosInfinity)
      else Num (if negative then - roundDouble m else roundDouble m))"

text \<open>
  Leading white space is skipped, one sign is read, then the longest run of decimal
  digits, whose value is converted to a double; without a digit the result is NaN.
\<close>

definition isWhiteSpace :: "char \<Rightarrow> bool" where
  "isWhiteSpace c = ((of_char c :: nat) \<in> {9, 10, 11, 12, 13, 32, 160})"

definition isDigit :: "char \<Rightarrow> bool" where
  "isDigit c = (48 \<le> (of_char c :: nat) \<and> (of_char c :: nat) \<le> 57)"

definition digitVal :: "char \<Rightarrow> int" where
  "digitVal c = int (of_char c) - 48"

definition parseInt :: "string \<Rightarrow> number" where
  "parseInt s =
     (let t = dropWhile isWhiteSpace s;
          (negative, u) = (case t of
                             [] \<Rightarrow> (False, [])
                           | c # cs \<Rightarrow> if c = CHR ''-'' then (True, cs)
                                      else if c = CHR ''+'' then (False, cs)
                                      else (False, c # cs));
          ds = takeWhile isDigit u
      in if ds = [] then NaN
         else toDouble negative (foldl (\<lambda>a c. 10 * a + digitVal c) 0 ds))"

section \<open>The upstream services\<close>

text \<open>
  The book page is known to the handler through three reads only: the status of the
  response, \<^verbatim>\<open>$("#__NEXT_DATA__").html()\<close> and \<^verbatim>\<open>$(script).html()\<close> for every script
  element; \<open>None\<close> is \<^verbatim>\<open>null\<close>. A promise that rejects is the error \<open>Rejected\<close>.
\<close>

datatype error = Rejected

record document =
  nextDataHtml :: "string option"
  scriptHtmls :: "string option list"

record page_response =
  ok :: bool
  html :: "error + document"  \<comment> \<open>\<^verbatim>\<open>cheerio.load(await response.text())\<close>\<close>

record graphql_request =
  x_api_key :: string
  resourceType :: string
  resourceId :: string
  limit :: nat
  after :: "string option"

record graphql_response =
  gq_ok :: bool
  gq_json :: "error + json"  \<comment> \<open>\<^verbatim>\<open>await response.json()\<close>\<close>

record upstream =
  fetch_page :: "string \<Rightarrow> error + page_response"
  fetch_graphql :: "graphql_request \<Rightarrow> error + graphql_response"

text \<open>The calls a function makes to the upstream services, in order.\<close>

datatype call = PageFetch string | GraphQLFetch graphql_request

section \<open>The data of the handler\<close>

record Review =
  review_id :: jsval
  rating :: jsval
  reviewer :: json
  reviewerUrl :: json
  date :: string
  content :: string

record BookInfo =
  title :: json
  author :: json
  coverUrl :: json

record page_data =
  workId :: string
  bookInfo :: BookInfo
  initialReviews :: "Review list"
  nextPageToken :: json
  totalCount :: json
  apiKey :: json

record graphql_result =
  reviews :: "Review list"
  gq_nextPageToken :: json
  gq_totalCount :: json

definition FALLBACK_API_KEY :: string where
  "FALLBACK_API_KEY = ''da2-xpgsdydkbregjhpr6ejzqdhuwy''"

section \<open>The review normalizer\<close>

text \<open>
  \<^verbatim>\<open>text?.replace(/<[^>]*>/g, "") || ""\<close>. A text that is neither nullish nor a string
  has no method \<^verbatim>\<open>replace\<close>: the call throws a TypeError, which is \<open>None\<close>.
\<close>

definition contentOf :: "jsval \<Rightarrow> string option" where
  "contentOf t =
     (case t of
        None \<Rightarrow> Some []
      | Some JNull \<Rightarrow> Some []
      | Some (JStr s) \<Rightarrow> Some (if stripAllTags s \<noteq> [] then stripAllTags s else [])
      | Some _ \<Rightarrow> None)"

text \<open>\<^verbatim>\<open>createdAt ? new Date(createdAt).toLocaleDateString() : ""\<close>\<close>

definition dateOf :: "runtime \<Rightarrow> jsval \<Rightarrow> string" where
  "dateOf rt createdAt =
     (case createdAt of
        None \<Rightarrow> []
      | Some v \<Rightarrow> if truthy v then toLocaleDateString rt v else [])"

text \<open>One turn of a loop that pushes reviews: it throws, pushes nothing, or pushes one.\<close>

datatype 'a step = Throw | Skip | Push 'a

fun collect :: "('a \<Rightarrow> 'b step) \<Rightarrow> 'a list \<Rightarrow> 'b list option" where
  "collect f [] = Some []"
| "collect f (x # xs) =
     (case f x of
        Throw \<Rightarrow> None
      | Skip \<Rightarrow> collect f xs
      | Push r \<Rightarrow> (case collect f xs of None \<Rightarrow> None | Some rs \<Rightarrow> Some (r # rs)))"

text \<open>
  The user entity of a review of the page: \<^verbatim>\<open>apolloState[review.creator.__ref]\<close> when
  the reference is truthy, and nothing otherwise.
\<close>

definition userDataOf :: "runtime \<Rightarrow> json \<Rightarrow> jsval \<Rightarrow> entity option" where
  "userDataOf rt apolloState review =
     (case getProp (getProp review ''creator'') ''__ref'' of
        None \<Rightarrow> None
      | Some r \<Rightarrow> if truthy r then lookup rt apolloState r else None)"

text \<open>The body of the loop over \<^verbatim>\<open>reviewKeys\<close> in \<^verbatim>\<open>fetchBookPageData\<close>.\<close>

definition pageReview :: "runtime \<Rightarrow> json \<Rightarrow> string \<Rightarrow> Review step" where
  "pageReview rt apolloState key =
     (let review = getProp (Some apolloState) key
      in if truthy_val review \<and> ge4 rt (getProp review ''rating'') then
           (let userData = userDataOf rt apolloState review;
                reviewerName = (if truthy_entity userData
                                then or_default (entityName userData) (JStr ''Anonymous'')
                                else JStr ''Anonymous'');
                reviewerLink = (if truthy_entity userData
                                then or_default (entityWebUrl userData) (JStr [])
                                else JStr [])
            in case contentOf (getProp review ''text'') of
                 None \<Rightarrow> Throw
               | Some c \<Rightarrow>
                   Push \<lparr>review_id = getProp review ''id'',
                         rating = getProp review ''rating'',
                         reviewer = reviewerName,
                         reviewerUrl = reviewerLink,
                         date = dateOf rt (getProp review ''createdAt''),
                         content = c\<rparr>)
         else Skip)"

text \<open>
  The body of the loop over the edges in \<^verbatim>\<open>fetchReviewsViaGraphQL\<close>. Reading
  \<^verbatim>\<open>edge.node\<close> throws when the edge is \<^verbatim>\<open>null\<close>.
\<close>

definition edgeNode :: "json \<Rightarrow> jsval option" where
  "edgeNode edge = (case edge of JNull \<Rightarrow> None | _ \<Rightarrow> Some (getProp (Some edge) ''node''))"

definition edgeReview :: "runtime \<Rightarrow> json \<Rightarrow> Review step" where
  "edgeReview rt edge =
     (case edgeNode edge of
        None \<Rightarrow> Throw
      | Some node \<Rightarrow>
          if truthy_val node \<and> ge4 rt (getProp node ''rating'') then
            (case contentOf (getProp node ''text'') of
               None \<Rightarrow> Throw
             | Some c \<Rightarrow>
                 Push \<lparr>review_id = getProp node ''id'',
                       rating = getProp node ''rating'',
                       reviewer = or_default (getProp (getProp node ''creator'') ''name'')
                                    (JStr ''Anonymous''),
                       reviewerUrl = or_default (getProp (getProp node ''creator'') ''webUrl'')
                                       (JStr []),
                       date = dateOf rt (getProp node ''createdAt''),
                       content = c\<rparr>)
          else Skip)"

section \<open>\<^verbatim>\<open>fetchBookPageData\<close>\<close>

text \<open>\<^verbatim>\<open>$(script).html() || ""\<close>\<close>

definition scriptContent :: "string option \<Rightarrow> string" where
  "scriptContent h = (case h of None \<Rightarrow> [] | Some c \<Rightarrow> c)"

text \<open>The loop over the script elements: the first match ends it.\<close>

fun scanScripts :: "string option list \<Rightarrow> string option" where
  "scanScripts [] = None"
| "scanScripts (h # hs) =
     (case apiKeyMatch (scriptContent h) of
        Some k \<Rightarrow> Some k
      | None \<Rightarrow> scanScripts hs)"

text \<open>\<^verbatim>\<open>nextData?.runtimeConfig || nextData?.props?.pageProps?.runtimeConfig\<close>\<close>

definition runtimeConfigOf :: "json \<Rightarrow> jsval" where
  "runtimeConfigOf nextData =
     or_val (getProp (Some nextData) ''runtimeConfig'')
       (getProp (getProp (getProp (Some nextData) ''props'') ''pageProps'') ''runtimeConfig'')"

text \<open>
  The variable \<^verbatim>\<open>apiKey\<close>: it starts as the fallback constant, the loop over the scripts
  assigns the first match to it, and after the loop a truthy \<^verbatim>\<open>runtimeConfig.apiKey\<close> is
  assigned to it.
\<close>

definition extractApiKey :: "document \<Rightarrow> json \<Rightarrow> json" where
  "extractApiKey doc nextData =
     (let scanned = (case scanScripts (scriptHtmls doc) of
                       None \<Rightarrow> JStr FALLBACK_API_KEY
                     | Some k \<Rightarrow> JStr k)
      in case getProp (runtimeConfigOf nextData) ''apiKey'' of
           None \<Rightarrow> scanned
         | Some v \<Rightarrow> if truthy v then v else scanned)"

text \<open>
  The author of the book: the name of the entity behind
  \<^verbatim>\<open>book.primaryContributorEdge.__ref\<close> and then \<^verbatim>\<open>contrib.node.__ref\<close>, each followed
  only when truthy.
\<close>

definition extractAuthor :: "runtime \<Rightarrow> json \<Rightarrow> jsval \<Rightarrow> json" where
  "extractAuthor rt apolloState book =
     (case getProp (getProp book ''primaryContributorEdge'') ''__ref'' of
        None \<Rightarrow> JStr ''Unknown Author''
      | Some contribKey \<Rightarrow>
          if truthy contribKey then
            (case getProp (entityNode (lookup rt apolloState contribKey)) ''__ref'' of
               None \<Rightarrow> JStr ''Unknown Author''
             | Some authorKey \<Rightarrow>
                 if truthy authorKey
                 then or_default (entityName (lookup rt apolloState authorKey))
                        (JStr ''Unknown Author'')
                 else JStr ''Unknown Author'')
          else JStr ''Unknown Author'')"

text \<open>The book is the entity of the first key that starts with \<^verbatim>\<open>Book:\<close>, if there is one.\<close>

definition extractBookInfo :: "runtime \<Rightarrow> json \<Rightarrow> string list \<Rightarrow> BookInfo" where
  "extractBookInfo rt apolloState keys =
     (case filter (\<lambda>k. startsWith k ''Book:'') keys of
        [] \<Rightarrow> \<lparr>title = JStr ''Unknown Title'', author = JStr ''Unknown Author'',
               coverUrl = JStr []\<rparr>
      | bookKey # _ \<Rightarrow>
          (let book = getProp (Some apolloState) bookKey
           in \<lparr>title = or_default (getProp book ''title'') (JStr ''Unknown Title''),
               author = extractAuthor rt apolloState book,
               coverUrl = or_default (getProp book ''imageUrl'') (JStr [])\<rparr>))"

text \<open>
  The \<^verbatim>\<open>try\<close> block once \<^verbatim>\<open>apolloState\<close> is known to be truthy. Whatever is thrown
  inside is caught and turned into \<^verbatim>\<open>null\<close>, here \<open>None\<close>.
\<close>

definition readState :: "runtime \<Rightarrow> document \<Rightarrow> json \<Rightarrow> json \<Rightarrow> page_data option" where
  "readState rt doc nextData apolloState =
     (let key = extractApiKey doc nextData
      in case objectKeys (Some apolloState) of
           None \<Rightarrow> None
         | Some keys \<Rightarrow>
             (case find (\<lambda>k. startsWith k ''Work:kca://work/'') keys of
                None \<Rightarrow> None
              | Some workKey \<Rightarrow>
                  (let info = extractBookInfo rt apolloState keys;
                       reviewKeys = filter (\<lambda>k. startsWith k ''Review:'') keys
                   in case collect (pageReview rt apolloState) reviewKeys of
                        None \<Rightarrow> None
                      | Some rs \<Rightarrow>
                          (let rootQuery = getProp (Some apolloState) ''ROOT_QUERY''
                           in case objectKeys rootQuery of
                                None \<Rightarrow> None
                              | Some rootKeys \<Rightarrow>
                                  (let reviewsData =
                                         (case find (\<lambda>k. startsWith k ''getReviews'') rootKeys of
                                            None \<Rightarrow> Some JNull
                                          | Some getReviewsKey \<Rightarrow> getProp rootQuery getReviewsKey)
                                   in Some \<lparr>workId = replaceFirst ''Work:'' [] workKey,
                                            bookInfo = info,
                                            initialReviews = rs,
                                            nextPageToken =
                                              or_default
                                                (getProp (getProp reviewsData ''pageInfo'')
                                                   ''nextPageToken'') JNull,
                                            totalCount =
                                              or_default (getProp reviewsData ''totalCount'')
                                                (JNum 0),
                                            apiKey = key\<rparr>)))))"

text \<open>\<^verbatim>\<open>nextData?.props?.pageProps?.apolloState\<close>\<close>

definition apolloStateOf :: "json \<Rightarrow> jsval" where
  "apolloStateOf nextData =
     getProp (getProp (getProp (Some nextData) ''props'') ''pageProps'') ''apolloState''"

text \<open>From \<^verbatim>\<open>$("#__NEXT_DATA__").html()\<close> to the result.\<close>

definition parsePage :: "runtime \<Rightarrow> document \<Rightarrow> page_data option" where
  "parsePage rt doc =
     (case nextDataHtml doc of
        None \<Rightarrow> None
      | Some nextDataScript \<Rightarrow>
          if nextDataScript = [] then None
          else (case JSON_parse rt nextDataScript of
                  None \<Rightarrow> None
                | Some nextData \<Rightarrow>
                    (case apolloStateOf nextData of
                       None \<Rightarrow> None
                     | Some apolloState \<Rightarrow>
                         if truthy apolloState then readState rt doc nextData apolloState
                         else None)))"

text \<open>
  The fetch and the reading of the body are outside the \<^verbatim>\<open>try\<close> block: when one of
  them rejects, so does \<^verbatim>\<open>fetchBookPageData\<close>.
\<close>

definition fetchBookPageData ::
  "runtime \<Rightarrow> upstream \<Rightarrow> string \<Rightarrow> (error + page_data option) \<times> call list" where
  "fetchBookPageData rt up target =
     ((case fetch_page up target of
         Inl e \<Rightarrow> Inl e
       | Inr response \<Rightarrow>
           if \<not> ok response then Inr None
           else (case html response of
                   Inl e \<Rightarrow> Inl e
                 | Inr doc \<Rightarrow> Inr (parsePage rt doc))),
      [PageFetch target])"

section \<open>\<^verbatim>\<open>fetchReviewsViaGraphQL\<close>\<close>

text \<open>
  \<^verbatim>\<open>for (const edge of reviewsConnection.edges || [])\<close>: an array gives its elements, a
  string its characters; any other truthy value is not iterable, and the loop throws.
\<close>

definition edgesOf :: "jsval \<Rightarrow> json list option" where
  "edgesOf e =
     (case or_default e (JArr []) of
        JArr xs \<Rightarrow> Some xs
      | JStr s \<Rightarrow> Some (map (\<lambda>c. JStr [c]) s)
      | _ \<Rightarrow> None)"

definition variablesOf :: "string \<Rightarrow> string option \<Rightarrow> string \<Rightarrow> graphql_request" where
  "variablesOf work pageTok key =
     \<lparr>x_api_key = key,
      resourceType = ''WORK'',
      resourceId = work,
      limit = 30,
      after = (case pageTok of None \<Rightarrow> None | Some t \<Rightarrow> if t \<noteq> [] then Some t else None)\<rparr>"

text \<open>The \<^verbatim>\<open>try\<close> block once the response body is parsed.\<close>

definition readConnection :: "runtime \<Rightarrow> json \<Rightarrow> graphql_result option" where
  "readConnection rt data =
     (case getProp (getProp (Some data) ''data'') ''getReviews'' of
        None \<Rightarrow> None
      | Some reviewsConnection \<Rightarrow>
          if \<not> truthy reviewsConnection then None
          else (case edgesOf (getProp (Some reviewsConnection) ''edges'') of
                  None \<Rightarrow> None
                | Some edges \<Rightarrow>
                    (case collect (edgeReview rt) edges of
                       None \<Rightarrow> None
                     | Some rs \<Rightarrow>
                         Some \<lparr>reviews = rs,
                               gq_nextPageToken =
                                 or_default
                                   (getProp (getProp (Some reviewsConnection) ''pageInfo'')
                                      ''nextPageToken'') JNull,
                               gq_totalCount =
                                 or_default (getProp (Some reviewsConnection) ''totalCount'')
                                   (JNum 0)\<rparr>)))"

definition fetchReviewsViaGraphQL ::
  "runtime \<Rightarrow> upstream \<Rightarrow> string \<Rightarrow> string option \<Rightarrow> string
     \<Rightarrow> graphql_result option \<times> call list" where
  "fetchReviewsViaGraphQL rt up work pageTok key =
     (let variables = variablesOf work pageTok key
      in ((case fetch_graphql up variables of
             Inl e \<Rightarrow> None
           | Inr response \<Rightarrow>
               if \<not> gq_ok response then None
               else (case gq_json response of
                       Inl e \<Rightarrow> None
                     | Inr data \<Rightarrow> readConnection rt data)),
          [GraphQLFetch variables]))"

section \<open>The handler \<^verbatim>\<open>GET\<close>\<close>

text \<open>The query parameters, each as \<^verbatim>\<open>searchParams.get\<close> returns it.\<close>

record request =
  url :: "string option"
  page :: "string option"
  pageToken :: "string option"
  req_workId :: "string option"
  req_apiKey :: "string option"

text \<open>
  The object given to \<^verbatim>\<open>NextResponse.json\<close>. \<open>currentPage\<close> is a double;
  \<open>pg_apiKey\<close> is \<open>None\<close> when the object has no property \<^verbatim>\<open>apiKey\<close>; \<open>book\<close> is
  \<open>None\<close> for \<^verbatim>\<open>null\<close>.
\<close>

record pagination =
  currentPage :: number
  hasNext :: bool
  hasPrev :: bool
  pg_nextPageToken :: json
  pg_workId :: string
  pg_apiKey :: "json option"

record success =
  book :: "BookInfo option"
  res_reviews :: "Review list"
  totalFiltered :: nat
  res_totalCount :: json
  pagination :: pagination

datatype body = ErrorBody string | SuccessBody success

record response =
  status :: nat
  body :: body

definition failure :: "nat \<Rightarrow> string \<Rightarrow> response" where
  "failure code message = \<lparr>status = code, body = ErrorBody message\<rparr>"

text \<open>\<^verbatim>\<open>parseInt(searchParams.get("page") || "1", 10)\<close>\<close>

definition pageOf :: "request \<Rightarrow> number" where
  "pageOf rq = parseInt (case page rq of None \<Rightarrow> ''1'' | Some s \<Rightarrow> if s \<noteq> [] then s else ''1'')"

text \<open>\<^verbatim>\<open>page > 1\<close>, false on NaN.\<close>

definition gt1 :: "number \<Rightarrow> bool" where
  "gt1 p = (case p of Num n \<Rightarrow> 1 < n | PosInfinity \<Rightarrow> True | _ \<Rightarrow> False)"

definition bootstrapResponse :: "page_data \<Rightarrow> response" where
  "bootstrapResponse pageData =
     \<lparr>status = 200,
      body = SuccessBody
        \<lparr>book = Some (bookInfo pageData),
         res_reviews = initialReviews pageData,
         totalFiltered = length (initialReviews pageData),
         res_totalCount = totalCount pageData,
         pagination =
           \<lparr>currentPage = Num 1,
            hasNext = truthy (nextPageToken pageData),
            hasPrev = False,
            pg_nextPageToken = nextPageToken pageData,
            pg_workId = workId pageData,
            pg_apiKey = Some (apiKey pageData)\<rparr>\<rparr>\<rparr>"

definition cursorResponse :: "number \<Rightarrow> string \<Rightarrow> graphql_result \<Rightarrow> response" where
  "cursorResponse p work graphqlResult =
     \<lparr>status = 200,
      body = SuccessBody
        \<lparr>book = None,
         res_reviews = reviews graphqlResult,
         totalFiltered = length (reviews graphqlResult),
         res_totalCount = gq_totalCount graphqlResult,
         pagination =
           \<lparr>currentPage = p,
            hasNext = truthy (gq_nextPageToken graphqlResult),
            hasPrev = gt1 p,
            pg_nextPageToken = gq_nextPageToken graphqlResult,
            pg_workId = work,
            pg_apiKey = None\<rparr>\<rparr>\<rparr>"

text \<open>\<^verbatim>\<open>page === 1 || !workId\<close>\<close>

definition bootstrapMode :: "request \<Rightarrow> bool" where
  "bootstrapMode rq =
     (pageOf rq = Num 1 \<or> req_workId rq = None \<or> req_workId rq = Some [])"

text \<open>\<^verbatim>\<open>pageToken || null\<close>\<close>

definition tokenOf :: "request \<Rightarrow> string option" where
  "tokenOf rq =
     (case pageToken rq of
        None \<Rightarrow> None
      | Some t \<Rightarrow> if t \<noteq> [] then Some t else None)"

text \<open>\<^verbatim>\<open>apiKey || FALLBACK_API_KEY\<close>\<close>

definition keyOf :: "request \<Rightarrow> string" where
  "keyOf rq =
     (case req_apiKey rq of
        None \<Rightarrow> FALLBACK_API_KEY
      | Some k \<Rightarrow> if k \<noteq> [] then k else FALLBACK_API_KEY)"

text \<open>
  The handler returns its response; the second component lists its upstream calls. In
  the second branch \<^verbatim>\<open>workId\<close> is a string, since \<^verbatim>\<open>!workId\<close> is false there.
\<close>

definition GET :: "runtime \<Rightarrow> upstream \<Rightarrow> request \<Rightarrow> response \<times> call list" where
  "GET rt up rq =
     (let p = pageOf rq
      in case url rq of
           None \<Rightarrow> (failure 400 ''Missing 'url' query parameter'', [])
         | Some target \<Rightarrow>
             if target = [] then (failure 400 ''Missing 'url' query parameter'', [])
             else if \<not> includes_str target ''goodreads.com''
             then (failure 400 ''URL must be a Goodreads URL'', [])
             else if bootstrapMode rq
             then (case fetchBookPageData rt up target of
                     (Inl e, calls) \<Rightarrow> (failure 500 ''Failed to fetch and parse reviews'', calls)
                   | (Inr None, calls) \<Rightarrow> (failure 500 ''Failed to fetch book data'', calls)
                   | (Inr (Some pageData), calls) \<Rightarrow> (bootstrapResponse pageData, calls))
             else (case fetchReviewsViaGraphQL rt up
                          (case req_workId rq of None \<Rightarrow> [] | Some w \<Rightarrow> w)
                          (tokenOf rq) (keyOf rq) of
                     (None, calls) \<Rightarrow> (failure 500 ''Failed to fetch reviews'', calls)
                   | (Some graphqlResult, calls) \<Rightarrow>
                       (cursorResponse p (case req_workId rq of None \<Rightarrow> [] | Some w \<Rightarrow> w)
                          graphqlResult, calls)))"

section \<open>The credential order of the specification\<close>

text \<open>
  The specification words the search for the credential as: the first match in the
  scripts; if there is none, the field of the runtime configuration; if that is absent
  too, the fallback constant. \<open>spec_credential\<close> follows these words, to be compared
  with \<open>extractApiKey\<close>. Likewise \<open>nullish_default\<close> is the operator \<^verbatim>\<open>??\<close> that
  the specification writes in the normalizer, to be compared with \<open>or_default\<close>.
\<close>

definition spec_credential :: "document \<Rightarrow> json \<Rightarrow> json" where
  "spec_credential doc nextData =
     (case scanScripts (scriptHtmls doc) of
        Some k \<Rightarrow> JStr k
      | None \<Rightarrow>
          (case getProp (runtimeConfigOf nextData) ''apiKey'' of
             None \<Rightarrow> JStr FALLBACK_API_KEY
           | Some v \<Rightarrow> if truthy v then v else JStr FALLBACK_API_KEY))"


section \<open>The domain check of the specification\<close>

text \<open>
  The specification asks that the \<^verbatim>\<open>url\<close> reference the domain of the site, a check of
  the domain name. \<open>spec_references_domain\<close> follows these words, to be compared with
  the test \<^verbatim>\<open>url.includes("goodreads.com")\<close> of the handler: the host of a URL stands
  between the \<^verbatim>\<open>://\<close> of the scheme and the next \<^verbatim>\<open>/\<close>, \<^verbatim>\<open>?\<close> or \<^verbatim>\<open>#\<close>, without the user
  information in front of an \<^verbatim>\<open>@\<close> and without the port behind a \<^verbatim>\<open>:\<close>, and it references
  the domain when it is the domain or ends with a dot and the domain.
\<close>

fun afterScheme :: "string \<Rightarrow> string" where
  "afterScheme [] = []"
| "afterScheme (c # cs) = (if prefix ''://'' (c # cs) then drop 3 (c # cs) else afterScheme cs)"

definition spec_host :: "string \<Rightarrow> string" where
  "spec_host u =
     (let authority = takeWhile (\<lambda>c. c \<noteq> CHR ''/'' \<and> c \<noteq> CHR ''?'' \<and> c \<noteq> CHR ''#'')
                        (afterScheme u);
          hostport = (if CHR ''@'' \<in> set authority
                      then rev (takeWhile (\<lambda>c. c \<noteq> CHR ''@'') (rev authority))
                      else authority)
      in takeWhile (\<lambda>c. c \<noteq> CHR '':'') hostport)"

definition spec_references_domain :: "string \<Rightarrow> bool" where
  "spec_references_domain u =
     (spec_host u = ''goodreads.com'' \<or> suffix ''.goodreads.com'' (spec_host u))"

section \<open>Sample inputs\<close>

text \<open>A book page with two reviews, one of them favourable, written by a user without a name.\<close>

definition sample_state :: json where
  "sample_state =
     JObj [(''ROOT_QUERY'',
              JObj [(''getReviews:w1'',
                       JObj [(''totalCount'', JNum 2),
                             (''pageInfo'', JObj [(''nextPageToken'', JStr ''tok2'')])])]),
           (''Work:kca://work/w1'', JObj []),
           (''Book:kca://book/b1'', JObj [(''title'', JStr ''Dune'')]),
           (''User:u1'', JObj [(''name'', JStr []), (''webUrl'', JStr ''/user/u1'')]),
           (''Review:r1'',
              JObj [(''id'', JStr ''r1''), (''rating'', JNum 5), (''createdAt'', JNum 1700000000000),
                    (''text'', JStr ''<b>Great</b> read''),
                    (''creator'', JObj [(''__ref'', JStr ''User:u1'')])]),
           (''Review:r2'',
              JObj [(''id'', JStr ''r2''), (''rating'', JNum 3), (''text'', JStr ''dull'')])]"

definition sample_nextData :: json where
  "sample_nextData =
     JObj [(''props'', JObj [(''pageProps'', JObj [(''apolloState'', sample_state)])]),
           (''runtimeConfig'', JObj [(''apiKey'', JStr ''cfg-key'')])]"

text \<open>The text of the state, as \<^verbatim>\<open>sample_runtime\<close> parses it.\<close>

definition sample_state_text :: string where
  \<open>sample_state_text =
     ''{"ROOT_QUERY":{"getReviews:w1":{"totalCount":2,"pageInfo":{"nextPageTo''
     @ ''ken":"tok2"}}},"Work:kca://work/w1":{},"Book:kca://book/b1":{"title":"''
     @ ''Dune"},"User:u1":{"name":"","webUrl":"/user/u1"},"Review:r1":{"id":"r1''
     @ ''","rating":5,"createdAt":1700000000000,"text":"<b>Great</b> read","creato''
     @ ''r":{"__ref":"User:u1"}},"Review:r2":{"id":"r2","rating":3,"text":"dull''
     @ ''"}}''\<close>

definition sample_text :: string where
  \<open>sample_text =
     ''{"props":{"pageProps":{"apolloState":'' @ sample_state_text
     @ ''}},"runtimeConfig":{"apiKey":"cfg-key"}}''\<close>

definition sample_script :: string where
  \<open>sample_script = ''var key = "da2-abc123";''\<close>

text \<open>The same page without a runtime configuration, and a page whose state does not parse.\<close>

definition plain_nextData :: json where
  "plain_nextData =
     JObj [(''props'', JObj [(''pageProps'', JObj [(''apolloState'', sample_state)])])]"

definition plain_text :: string where
  \<open>plain_text = ''{"props":{"pageProps":{"apolloState":'' @ sample_state_text @ ''}}}''\<close>

definition plain_doc :: document where
  "plain_doc =
     \<lparr>nextDataHtml = Some plain_text,
      scriptHtmls = [Some [], Some ''window.x = 1;'', Some sample_script, Some plain_text]\<rparr>"

definition broken_doc :: document where
  "broken_doc = \<lparr>nextDataHtml = Some ''{'', scriptHtmls = [Some ''{'']\<rparr>"

definition sample_doc :: document where
  "sample_doc =
     \<lparr>nextDataHtml = Some sample_text,
      scriptHtmls = [Some [], Some ''window.x = 1;'', Some sample_script, Some sample_text]\<rparr>"

text \<open>
  A runtime for the samples: it parses the two sample texts and no other, and its other
  conversions are constant, the samples having numbers as ratings and strings as keys.
\<close>

definition sample_runtime :: runtime where
  "sample_runtime =
     \<lparr>JSON_parse = (\<lambda>s. if s = sample_text then Some sample_nextData
                         else if s = plain_text then Some plain_nextData
                         else None),
      StringToNumber = (\<lambda>s. None),
      ToString = (\<lambda>v. ''[object Object]''),
      toLocaleDateString = (\<lambda>v. ''11/14/2023'')\<rparr>"

text \<open>An answer of the review service with two edges, one of them favourable.\<close>

definition sample_edge :: json where
  "sample_edge =
     JObj [(''node'',
              JObj [(''id'', JStr ''r7''), (''text'', JStr ''so <i>good</i>''), (''rating'', JNum 4),
                    (''createdAt'', JNum 1700000000000),
                    (''creator'', JObj [(''name'', JStr []), (''webUrl'', JStr [])])])]"

definition sample_connection :: json where
  "sample_connection =
     JObj [(''data'',
              JObj [(''getReviews'',
                       JObj [(''totalCount'', JNum 2),
                             (''edges'',
                                JArr [sample_edge,
                                      JObj [(''node'',
                                               JObj [(''id'', JStr ''r8''), (''text'', JStr ''meh''),
                                                     (''rating'', JNum 2)])]]),
                             (''pageInfo'', JObj [(''nextPageToken'', JNull)])])])]"

definition sample_upstream :: upstream where
  "sample_upstream =
     \<lparr>fetch_page = (\<lambda>u. Inr \<lparr>ok = True, html = Inr sample_doc\<rparr>),
      fetch_graphql = (\<lambda>q. Inr \<lparr>gq_ok = True, gq_json = Inr sample_connection\<rparr>)\<rparr>"

definition plain_upstream :: upstream where
  "plain_upstream =
     \<lparr>fetch_page = (\<lambda>u. Inr \<lparr>ok = True, html = Inr plain_doc\<rparr>),
      fetch_graphql = (\<lambda>q. Inl Rejected)\<rparr>"

definition broken_upstream :: upstream where
  "broken_upstream =
     \<lparr>fetch_page = (\<lambda>u. Inr \<lparr>ok = True, html = Inr broken_doc\<rparr>),
      fetch_graphql = (\<lambda>q. Inl Rejected)\<rparr>"

definition failing_upstream :: upstream where
  "failing_upstream =
     \<lparr>fetch_page = (\<lambda>u. Inr \<lparr>ok = False, html = Inl Rejected\<rparr>),
      fetch_graphql = (\<lambda>q. Inl Rejected)\<rparr>"

definition sample_url :: string where
  "sample_url = ''https://www.goodreads.com/book/show/1''"

definition first_request :: request where
  "first_request =
     \<lparr>url = Some sample_url, page = None, pageToken = Some ''tok9'',
      req_workId = Some ''kca://work/w1'', req_apiKey = Some ''cfg-key''\<rparr>"

definition second_request :: request where
  "second_request =
     \<lparr>url = Some sample_url, page = Some ''2'', pageToken = Some ''tok2'',
      req_workId = Some ''kca://work/w1'', req_apiKey = Some ''cfg-key''\<rparr>"


definition foreign_url :: string where
  "foreign_url = ''https://example.com/book/show/1''"

text \<open>What the two fetch paths return on the samples.\<close>

definition page_review :: Review where
  "page_review =
     \<lparr>review_id = Some (JStr ''r1''), rating = Some (JNum 5), reviewer = JStr ''Anonymous'',
      reviewerUrl = JStr ''/user/u1'', date = ''11/14/2023'', content = ''Great read''\<rparr>"

definition sample_page_data :: page_data where
  "sample_page_data =
     \<lparr>workId = ''kca://work/w1'',
      bookInfo = \<lparr>title = JStr ''Dune'', author = JStr ''Unknown Author'', coverUrl = JStr []\<rparr>,
      initialReviews = [page_review],
      nextPageToken = JStr ''tok2'',
      totalCount = JNum 2,
      apiKey = JStr ''cfg-key''\<rparr>"

definition edge_review :: Review where
  "edge_review =
     \<lparr>review_id = Some (JStr ''r7''), rating = Some (JNum 4), reviewer = JStr ''Anonymous'',
      reviewerUrl = JStr [], date = ''11/14/2023'', content = ''so good''\<rparr>"

definition sample_result :: graphql_result where
  "sample_result =
     \<lparr>reviews = [edge_review], gq_nextPageToken = JNull, gq_totalCount = JNum 2\<rparr>"

definition plain_page_data :: page_data where
  "plain_page_data = sample_page_data\<lparr>apiKey := JStr ''da2-abc123''\<rparr>"


text \<open>The bodies of the answers to the first and to the second request.\<close>

definition first_success :: success where
  "first_success =
     \<lparr>book = Some (bookInfo sample_page_data),
      res_reviews = [page_review],
      totalFiltered = 1,
      res_totalCount = JNum 2,
      pagination =
        \<lparr>currentPage = Num 1, hasNext = True, hasPrev = False,
         pg_nextPageToken = JStr ''tok2'', pg_workId = ''kca://work/w1'',
         pg_apiKey = Some (JStr ''cfg-key'')\<rparr>\<rparr>"

definition second_success :: success where
  "second_success =
     \<lparr>book = None,
      res_reviews = [edge_review],
      totalFiltered = 1,
      res_totalCount = JNum 2,
      pagination =
        \<lparr>currentPage = Num 2, hasNext = False, hasPrev = True,
         pg_nextPageToken = JNull, pg_workId = ''kca://work/w1'',
         pg_apiKey = None\<rparr>\<rparr>"







text \<open>A URL of another host that holds the name of the domain in its query.\<close>

definition evil_url :: string where
  "evil_url = ''https://evil.example/x?ref=goodreads.com''"

section \<open>Auxiliary facts\<close>

text \<open>\<open>includes_str s p\<close> says that \<open>p\<close> occurs in \<open>s\<close>.\<close>

lemma includes_str_iff: "includes_str s p \<longleftrightarrow> (\<exists>a b. s = a @ p @ b)"
proof (induction s)
  case Nil
  show ?case by auto
next
  case (Cons c cs)
  show ?case
  proof
    assume "includes_str (c # cs) p"
    then consider "prefix p (c # cs)" | "includes_str cs p" by auto
    then show "\<exists>a b. c # cs = a @ p @ b"
    proof cases
      case 1
      then obtain b where "c # cs = p @ b" by (auto simp: prefix_def)
      then have "c # cs = [] @ p @ b" by simp
      then show ?thesis by blast
    next
      case 2
      with Cons.IH obtain a b where "cs = a @ p @ b" by auto
      then have "c # cs = (c # a) @ p @ b" by simp
      then show ?thesis by blast
    qed
  next
    assume "\<exists>a b. c # cs = a @ p @ b"
    then obtain a b where ab: "c # cs = a @ p @ b" by blast
    show "includes_str (c # cs) p"
    proof (cases a)
      case Nil
      with ab have "prefix p (c # cs)" by (simp add: prefix_def)
      then show ?thesis by simp
    next
      case (Cons x a')
      with ab have "cs = a' @ p @ b" by simp
      with Cons.IH have "includes_str cs p" by blast
      then show ?thesis by simp
    qed
  qed
qed

section \<open>The two fetch paths\<close>

text \<open>Whatever a loop collects was pushed by its body, on one of the elements.\<close>

lemma collect_Push:
  "collect f xs = Some rs \<Longrightarrow> r \<in> set rs \<Longrightarrow> \<exists>x\<in>set xs. f x = Push r"
proof (induction xs arbitrary: rs)
  case Nil
  then show ?case by simp
next
  case (Cons x xs)
  show ?case
  proof (cases "f x")
    case Throw
    with Cons.prems show ?thesis by simp
  next
    case Skip
    with Cons.prems have "collect f xs = Some rs" by simp
    with Cons.IH Cons.prems(2) show ?thesis by auto
  next
    case (Push y)
    with Cons.prems(1) obtain rs' where rs': "collect f xs = Some rs'" "rs = y # rs'"
      by (auto split: option.splits)
    show ?thesis
    proof (cases "r = y")
      case True
      with Push show ?thesis by simp
    next
      case False
      with rs' Cons.prems(2) have "r \<in> set rs'" by simp
      with Cons.IH rs'(1) show ?thesis by auto
    qed
  qed
qed

lemma getProp_falsy: "\<not> truthy_val u \<Longrightarrow> getProp u k = None"
proof (cases u)
  case None
  then show ?thesis by simp
next
  case (Some v)
  assume "\<not> truthy_val u"
  with Some show ?thesis by (cases v) simp_all
qed

text \<open>A falsy entity has neither a name nor a link, so the guard of the loop is idle.\<close>

lemma entity_falsy:
  assumes "\<not> truthy_entity u"
  shows "entityName u = None" and "entityWebUrl u = None"
proof -
  have "entityName u = None \<and> entityWebUrl u = None"
  proof (cases u)
    case None
    then show ?thesis by simp
  next
    case (Some e)
    show ?thesis
    proof (cases e)
      case (Entity x)
      with Some assms have "\<not> truthy_val (Some x)" by simp
      then have "getProp (Some x) ''name'' = None" and "getProp (Some x) ''webUrl'' = None"
        by (rule getProp_falsy)+
      with Some Entity show ?thesis by simp
    next
      case (Method n)
      with Some assms show ?thesis by simp
    next
      case ObjectPrototype
      with Some assms show ?thesis by simp
    qed
  qed
  then show "entityName u = None" and "entityWebUrl u = None" by simp_all
qed

lemma entity_guard:
  "(if truthy_entity u then or_default (entityName u) d else d) = or_default (entityName u) d"
  "(if truthy_entity u then or_default (entityWebUrl u) d else d) = or_default (entityWebUrl u) d"
  by (simp_all add: entity_falsy or_default_def)

lemma pageReview_Push:
  assumes "pageReview rt st key = Push rv"
  shows "ge4 rt (getProp (getProp (Some st) key) ''rating'')"
    and "rating rv = getProp (getProp (Some st) key) ''rating''"
    and "contentOf (getProp (getProp (Some st) key) ''text'') = Some (content rv)"
    and "reviewer rv =
           or_default (entityName (userDataOf rt st (getProp (Some st) key))) (JStr ''Anonymous'')"
    and "reviewerUrl rv =
           or_default (entityWebUrl (userDataOf rt st (getProp (Some st) key))) (JStr [])"
    and "date rv = dateOf rt (getProp (getProp (Some st) key) ''createdAt'')"
    and "review_id rv = getProp (getProp (Some st) key) ''id''"
  using assms
  by (auto simp: pageReview_def Let_def entity_guard split: if_splits option.splits)

lemma edgeReview_Push:
  assumes "edgeReview rt edge = Push rv"
  shows "ge4 rt (getProp (getProp (Some edge) ''node'') ''rating'')"
    and "rating rv = getProp (getProp (Some edge) ''node'') ''rating''"
    and "contentOf (getProp (getProp (Some edge) ''node'') ''text'') = Some (content rv)"
    and "reviewer rv =
           or_default (getProp (getProp (getProp (Some edge) ''node'') ''creator'') ''name'')
             (JStr ''Anonymous'')"
    and "reviewerUrl rv =
           or_default (getProp (getProp (getProp (Some edge) ''node'') ''creator'') ''webUrl'')
             (JStr [])"
    and "date rv = dateOf rt (getProp (getProp (Some edge) ''node'') ''createdAt'')"
    and "review_id rv = getProp (getProp (Some edge) ''node'') ''id''"
  using assms
  by (auto simp: edgeReview_def edgeNode_def split: if_splits option.splits json.splits)

lemma parsePage_reviews:
  assumes "parsePage rt doc = Some d" and "rv \<in> set (initialReviews d)"
  shows "\<exists>st key. pageReview rt st key = Push rv"
proof -
  from assms(1) obtain nd st where "readState rt doc nd st = Some d"
    by (auto simp: parsePage_def split: option.splits if_splits)
  then obtain ks where "collect (pageReview rt st) ks = Some (initialReviews d)"
    by (auto simp: readState_def Let_def split: option.splits)
  from collect_Push [OF this assms(2)] show ?thesis by blast
qed

lemma readConnection_reviews:
  assumes "readConnection rt data = Some g" and "rv \<in> set (reviews g)"
  shows "\<exists>edge. edgeReview rt edge = Push rv"
proof -
  from assms(1) obtain es where "collect (edgeReview rt) es = Some (reviews g)"
    by (auto simp: readConnection_def split: option.splits if_splits)
  from collect_Push [OF this assms(2)] show ?thesis by blast
qed

lemma fetchBookPageData_Some:
  assumes "fst (fetchBookPageData rt up target) = Inr (Some d)"
  shows "\<exists>resp doc. fetch_page up target = Inr resp \<and> ok resp \<and> html resp = Inr doc
           \<and> parsePage rt doc = Some d"
  using assms
  by (auto simp: fetchBookPageData_def split: sum.splits if_splits)

lemma fetchReviewsViaGraphQL_Some:
  assumes "fst (fetchReviewsViaGraphQL rt up work tok key) = Some g"
  shows "\<exists>resp data. fetch_graphql up (variablesOf work tok key) = Inr resp \<and> gq_ok resp
           \<and> gq_json resp = Inr data \<and> readConnection rt data = Some g"
  using assms
  by (auto simp: fetchReviewsViaGraphQL_def Let_def split: sum.splits if_splits)

lemma fetchBookPageData_calls: "snd (fetchBookPageData rt up target) = [PageFetch target]"
  by (simp add: fetchBookPageData_def)

lemma fetchReviewsViaGraphQL_calls:
  "snd (fetchReviewsViaGraphQL rt up work tok key) = [GraphQLFetch (variablesOf work tok key)]"
  by (simp add: fetchReviewsViaGraphQL_def Let_def)

lemma GET_bootstrap:
  assumes "url rq = Some target" and "target \<noteq> []" and "includes_str target ''goodreads.com''"
    and "bootstrapMode rq"
  shows "GET rt up rq =
           ((case fst (fetchBookPageData rt up target) of
               Inl e \<Rightarrow> failure 500 ''Failed to fetch and parse reviews''
             | Inr None \<Rightarrow> failure 500 ''Failed to fetch book data''
             | Inr (Some pageData) \<Rightarrow> bootstrapResponse pageData),
            [PageFetch target])"
proof -
  obtain x where x: "fetchBookPageData rt up target = (x, [PageFetch target])"
    using fetchBookPageData_calls [of rt up target] by (cases "fetchBookPageData rt up target") simp
  with assms show ?thesis
    by (simp add: GET_def Let_def split: sum.splits option.splits)
qed

lemma GET_cursor:
  assumes "url rq = Some target" and "target \<noteq> []" and "includes_str target ''goodreads.com''"
    and "\<not> bootstrapMode rq" and "req_workId rq = Some work"
  shows "GET rt up rq =
           ((case fst (fetchReviewsViaGraphQL rt up work (tokenOf rq) (keyOf rq)) of
               None \<Rightarrow> failure 500 ''Failed to fetch reviews''
             | Some graphqlResult \<Rightarrow> cursorResponse (pageOf rq) work graphqlResult),
            [GraphQLFetch (variablesOf work (tokenOf rq) (keyOf rq))])"
proof -
  obtain x where x: "fetchReviewsViaGraphQL rt up work (tokenOf rq) (keyOf rq)
                       = (x, [GraphQLFetch (variablesOf work (tokenOf rq) (keyOf rq))])"
    using fetchReviewsViaGraphQL_calls [of rt up work "tokenOf rq" "keyOf rq"]
    by (cases "fetchReviewsViaGraphQL rt up work (tokenOf rq) (keyOf rq)") simp
  with assms show ?thesis
    by (simp add: GET_def Let_def split: option.splits)
qed

lemma GET_success:
  assumes "fst (GET rt up rq) = \<lparr>status = c, body = SuccessBody s\<rparr>"
  shows "(\<exists>target d. url rq = Some target \<and> bootstrapMode rq
            \<and> fst (fetchBookPageData rt up target) = Inr (Some d)
            \<and> \<lparr>status = c, body = SuccessBody s\<rparr> = bootstrapResponse d)
       \<or> (\<exists>work g. req_workId rq = Some work \<and> \<not> bootstrapMode rq
            \<and> fst (fetchReviewsViaGraphQL rt up work (tokenOf rq) (keyOf rq)) = Some g
            \<and> \<lparr>status = c, body = SuccessBody s\<rparr> = cursorResponse (pageOf rq) work g)"
proof (cases "url rq")
  case None
  with assms show ?thesis by (simp add: GET_def failure_def)
next
  case (Some target)
  show ?thesis
  proof (cases "target = [] \<or> \<not> includes_str target ''goodreads.com''")
    case True
    with Some have "fst (GET rt up rq) = failure 400 ''Missing 'url' query parameter''
        \<or> fst (GET rt up rq) = failure 400 ''URL must be a Goodreads URL''"
      by (cases "target = []") (simp_all add: GET_def Let_def)
    with assms show ?thesis by (auto simp: failure_def)
  next
    case False
    then have valid: "target \<noteq> []" "includes_str target ''goodreads.com''" by simp_all
    show ?thesis
    proof (cases "bootstrapMode rq")
      case True
      from GET_bootstrap [OF Some valid True, of rt up] assms
      obtain d where "fst (fetchBookPageData rt up target) = Inr (Some d)"
        and "bootstrapResponse d = \<lparr>status = c, body = SuccessBody s\<rparr>"
        by (auto simp: failure_def split: sum.splits option.splits)
      with Some True show ?thesis by metis
    next
      case False
      then obtain work where work: "req_workId rq = Some work"
        by (auto simp: bootstrapMode_def)
      from GET_cursor [OF Some valid False work, of rt up] assms
      obtain g where "fst (fetchReviewsViaGraphQL rt up work (tokenOf rq) (keyOf rq)) = Some g"
        and "cursorResponse (pageOf rq) work g = \<lparr>status = c, body = SuccessBody s\<rparr>"
        by (auto simp: failure_def split: option.splits)
      with work False show ?thesis by metis
    qed
  qed
qed

section \<open>The state is an object\<close>

text \<open>
  The keys of a string or an array are decimal numbers, none of which starts like the key
  of a work: a state that \<open>readState\<close> reads to the end is an object.
\<close>

lemma digit_in: "digit d \<in> set ''0123456789''"
proof -
  have "d mod 10 < length ''0123456789''" by simp
  then have "''0123456789'' ! (d mod 10) \<in> set ''0123456789''" by (rule nth_mem)
  then show ?thesis by (simp only: digit_def)
qed

lemma decimal_digits: "set (decimal n) \<subseteq> set ''0123456789''"
proof (induction n rule: decimal.induct)
  case (1 n)
  show ?case
  proof (cases "n < 10")
    case True
    then have "decimal n = [digit n]" by (subst decimal.simps) (simp del: decimal.simps)
    with digit_in [of n] show ?thesis by (simp del: decimal.simps)
  next
    case False
    then have "decimal n = decimal (n div 10) @ [digit n]"
      by (subst decimal.simps) (simp del: decimal.simps)
    with 1 [OF False] digit_in [of n] show ?thesis by (simp del: decimal.simps)
  qed
qed

lemma index_key_no_prefix:
  assumes "prefix (CHR ''W'' # p) key"
  shows "key \<notin> set (map decimal ns)"
proof
  assume "key \<in> set (map decimal ns)"
  then obtain n where "key = decimal n" by (auto simp del: decimal.simps)
  with assms have "prefix (CHR ''W'' # p) (decimal n)" by (simp only:)
  then obtain r where r: "decimal n = (CHR ''W'' # p) @ r" unfolding prefix_def by blast
  have "CHR ''W'' \<in> set ((CHR ''W'' # p) @ r)" by simp
  then have "CHR ''W'' \<in> set (decimal n)" by (simp only: r)
  with decimal_digits [of n] have "CHR ''W'' \<in> set ''0123456789''" by blast
  then show False by simp
qed

lemma find_index_keys:
  "find (\<lambda>k. startsWith k ''Work:kca://work/'') (map decimal ns) = None"
proof -
  have none: "\<not> (\<exists>k. k \<in> set (map decimal ns) \<and> prefix ''Work:kca://work/'' k)"
    using index_key_no_prefix [of "''ork:kca://work/''" _ ns] by blast
  show ?thesis by (subst find_None_iff) (use none in blast)
qed

lemma readState_object:
  assumes "readState rt doc nextData st = Some d"
  shows "\<exists>kvs. st = JObj kvs"
proof (cases st)
  case JNull
  with assms show ?thesis by (simp add: readState_def)
next
  case (JBool b)
  with assms show ?thesis by (simp add: readState_def)
next
  case (JNum r)
  with assms show ?thesis by (simp add: readState_def)
next
  case (JStr s)
  with assms find_index_keys [of "[0..<length s]"] show ?thesis
    by (simp add: readState_def del: decimal.simps)
next
  case (JArr xs)
  with assms find_index_keys [of "[0..<length xs]"] show ?thesis
    by (simp add: readState_def del: decimal.simps)
next
  case (JObj kvs)
  then show ?thesis by simp
qed

section \<open>Validation of the request\<close>

text \<open>
  Claim C7, as stated, fails: the host of the sample URL \<^verbatim>\<open>evil_url\<close> is another domain,
  so the URL does not reference the Goodreads domain, and yet the handler fetches it and
  answers with status 200, since the text \<^verbatim>\<open>goodreads.com\<close> stands in its query.
\<close>

theorem url_validation_counterexample:
  "spec_host evil_url = ''evil.example''
   \<and> \<not> spec_references_domain evil_url
   \<and> includes_str evil_url ''goodreads.com''
   \<and> GET sample_runtime sample_upstream (first_request\<lparr>url := Some evil_url\<rparr>)
       = (\<lparr>status = 200, body = SuccessBody first_success\<rparr>, [PageFetch evil_url])"
  by code_simp

text \<open>
  Claim C7, amended. A request without a \<^verbatim>\<open>url\<close> parameter (the handler tests \<^verbatim>\<open>!url\<close>, so
  an empty one counts as none) is answered with status 400 and the error
  \<^verbatim>\<open>Missing 'url' query parameter\<close>; a request whose \<^verbatim>\<open>url\<close> does not contain the text
  \<^verbatim>\<open>goodreads.com\<close> is answered with status 400 and the error
  \<^verbatim>\<open>URL must be a Goodreads URL\<close>. In both cases the list of upstream calls is empty. A
  \<^verbatim>\<open>url\<close> that contains the text at any place passes the validation: the handler makes
  one upstream call, and its answer does not have status 400.
\<close>

theorem url_validation:
  "(url rq = None \<or> url rq = Some [] \<longrightarrow>
      GET rt up rq = (\<lparr>status = 400, body = ErrorBody ''Missing 'url' query parameter''\<rparr>, []))
   \<and> (\<forall>target. url rq = Some target \<and> target \<noteq> []
           \<and> (\<nexists>a b. target = a @ ''goodreads.com'' @ b) \<longrightarrow>
        GET rt up rq = (\<lparr>status = 400, body = ErrorBody ''URL must be a Goodreads URL''\<rparr>, []))
   \<and> (\<forall>target. url rq = Some target \<and> (\<exists>a b. target = a @ ''goodreads.com'' @ b) \<longrightarrow>
        length (snd (GET rt up rq)) = 1 \<and> status (fst (GET rt up rq)) \<noteq> 400)"
proof -
  have missing: "GET rt up rq
      = (\<lparr>status = 400, body = ErrorBody ''Missing 'url' query parameter''\<rparr>, [])"
    if "url rq = None \<or> url rq = Some []"
    using that by (auto simp: GET_def failure_def)
  have foreign: "GET rt up rq
      = (\<lparr>status = 400, body = ErrorBody ''URL must be a Goodreads URL''\<rparr>, [])"
    if "url rq = Some target" and "target \<noteq> []" and "\<nexists>a b. target = a @ ''goodreads.com'' @ b"
    for target
    using that by (simp add: GET_def failure_def includes_str_iff)
  have passes: "length (snd (GET rt up rq)) = 1 \<and> status (fst (GET rt up rq)) \<noteq> 400"
    if target: "url rq = Some target" and "\<exists>a b. target = a @ ''goodreads.com'' @ b" for target
  proof -
    from that(2) have inc: "includes_str target ''goodreads.com''"
      by (simp only: includes_str_iff)
    then have ne: "target \<noteq> []" by auto
    show ?thesis
    proof (cases "bootstrapMode rq")
      case True
      from GET_bootstrap [OF target ne inc True, of rt up] show ?thesis
        by (simp add: failure_def bootstrapResponse_def split: sum.splits option.splits)
    next
      case False
      then obtain work where "req_workId rq = Some work" by (auto simp: bootstrapMode_def)
      from GET_cursor [OF target ne inc False this, of rt up] show ?thesis
        by (simp add: failure_def cursorResponse_def split: option.splits)
    qed
  qed
  from missing foreign passes show ?thesis by blast
qed

theorem url_validation_witness:
  "GET sample_runtime sample_upstream (first_request\<lparr>url := None\<rparr>)
     = (\<lparr>status = 400, body = ErrorBody ''Missing 'url' query parameter''\<rparr>, [])
   \<and> GET sample_runtime sample_upstream (first_request\<lparr>url := Some foreign_url\<rparr>)
     = (\<lparr>status = 400, body = ErrorBody ''URL must be a Goodreads URL''\<rparr>, [])
   \<and> length (snd (GET sample_runtime sample_upstream (first_request\<lparr>url := Some evil_url\<rparr>))) = 1
   \<and> status (fst (GET sample_runtime sample_upstream (first_request\<lparr>url := Some evil_url\<rparr>)))
       \<noteq> 400"
proof -
  have none: "url (first_request\<lparr>url := None\<rparr>) = None" by simp
  have some: "url (first_request\<lparr>url := Some foreign_url\<rparr>) = Some foreign_url" by simp
  have evil: "url (first_request\<lparr>url := Some evil_url\<rparr>) = Some evil_url" by simp
  have foreign: "\<nexists>a b. foreign_url = a @ ''goodreads.com'' @ b"
    unfolding includes_str_iff [symmetric] by (simp add: foreign_url_def)
  have nonempty: "foreign_url \<noteq> []" by (simp add: foreign_url_def)
  have "includes_str evil_url ''goodreads.com''" by code_simp
  then have holds: "\<exists>a b. evil_url = a @ ''goodreads.com'' @ b" by (simp only: includes_str_iff)
  from url_validation [of "first_request\<lparr>url := None\<rparr>" sample_runtime sample_upstream] none
  have a: "GET sample_runtime sample_upstream (first_request\<lparr>url := None\<rparr>)
     = (\<lparr>status = 400, body = ErrorBody ''Missing 'url' query parameter''\<rparr>, [])" by blast
  from url_validation [of "first_request\<lparr>url := Some foreign_url\<rparr>" sample_runtime sample_upstream]
    some foreign nonempty
  have b: "GET sample_runtime sample_upstream (first_request\<lparr>url := Some foreign_url\<rparr>)
     = (\<lparr>status = 400, body = ErrorBody ''URL must be a Goodreads URL''\<rparr>, [])" by blast
  from url_validation [of "first_request\<lparr>url := Some evil_url\<rparr>" sample_runtime sample_upstream]
    evil holds
  have c: "length (snd (GET sample_runtime sample_upstream (first_request\<lparr>url := Some evil_url\<rparr>))) = 1
   \<and> status (fst (GET sample_runtime sample_upstream (first_request\<lparr>url := Some evil_url\<rparr>)))
       \<noteq> 400" by blast
  from a b c show ?thesis by blast
qed

section \<open>Only favourable reviews\<close>

text \<open>
  Claim C1. Every review that \<^verbatim>\<open>fetchBookPageData\<close> or \<^verbatim>\<open>fetchReviewsViaGraphQL\<close>
  returns, and so every review in a successful response of the handler, passed the test
  \<^verbatim>\<open>rating >= 4\<close>. Its rating, when a number, is at least 4; when it is an integer from 1
  to 5, as the ratings of the upstream service are, it is 4 or 5.
\<close>

theorem ratings_at_least_four:
  "(fst (fetchBookPageData rt up target) = Inr (Some d) \<and> rv \<in> set (initialReviews d) \<longrightarrow>
      ge4 rt (rating rv))
   \<and> (fst (fetchReviewsViaGraphQL rt up work tok key) = Some g \<and> rv \<in> set (reviews g) \<longrightarrow>
      ge4 rt (rating rv))
   \<and> (fst (GET rt up rq) = \<lparr>status = c, body = SuccessBody s\<rparr> \<and> rv \<in> set (res_reviews s) \<longrightarrow>
      ge4 rt (rating rv))
   \<and> (ge4 rt (rating rv) \<longrightarrow>
        (\<forall>q. rating rv = Some (JNum q) \<longrightarrow> 4 \<le> q)
        \<and> (\<forall>n. rating rv = Some (JNum (of_int n)) \<and> 1 \<le> n \<and> n \<le> 5 \<longrightarrow> n = 4 \<or> n = 5))"
proof -
  have page: "ge4 rt (rating r)"
    if "fst (fetchBookPageData rt up t) = Inr (Some pd)" and "r \<in> set (initialReviews pd)"
    for t pd r
  proof -
    from fetchBookPageData_Some [OF that(1)] obtain doc where "parsePage rt doc = Some pd"
      by blast
    from parsePage_reviews [OF this that(2)] obtain st k where "pageReview rt st k = Push r"
      by blast
    from pageReview_Push(1,2) [OF this] show ?thesis by simp
  qed
  have cursor: "ge4 rt (rating r)"
    if "fst (fetchReviewsViaGraphQL rt up w t k) = Some gr" and "r \<in> set (reviews gr)"
    for w t k gr r
  proof -
    from fetchReviewsViaGraphQL_Some [OF that(1)] obtain data where
      "readConnection rt data = Some gr" by blast
    from readConnection_reviews [OF this that(2)] obtain e where "edgeReview rt e = Push r"
      by blast
    from edgeReview_Push(1,2) [OF this] show ?thesis by simp
  qed
  have handler: "ge4 rt (rating rv)"
    if "fst (GET rt up rq) = \<lparr>status = c, body = SuccessBody s\<rparr>" and "rv \<in> set (res_reviews s)"
  proof -
    from GET_success [OF that(1)] show ?thesis
    proof (elim disjE exE conjE)
      fix t pd
      assume "fst (fetchBookPageData rt up t) = Inr (Some pd)"
        and "\<lparr>status = c, body = SuccessBody s\<rparr> = bootstrapResponse pd"
      with that(2) page show ?thesis by (auto simp: bootstrapResponse_def)
    next
      fix w gr
      assume "fst (fetchReviewsViaGraphQL rt up w (tokenOf rq) (keyOf rq)) = Some gr"
        and "\<lparr>status = c, body = SuccessBody s\<rparr> = cursorResponse (pageOf rq) w gr"
      with that(2) cursor show ?thesis by (auto simp: cursorResponse_def)
    qed
  qed
  have number: "4 \<le> q" if "ge4 rt (rating rv)" and "rating rv = Some (JNum q)" for q
    using that by (simp add: ge4_def)
  have integer: "n = 4 \<or> n = 5"
    if "ge4 rt (rating rv)" and "rating rv = Some (JNum (of_int n))" and "n \<le> 5" for n :: int
  proof -
    from number [OF that(1,2)] have "(4::rat) \<le> of_int n" .
    then have "4 \<le> n" by linarith
    with that(3) show ?thesis by linarith
  qed
  from page cursor handler number integer show ?thesis by blast
qed


theorem ratings_at_least_four_witness:
  "fst (fetchBookPageData sample_runtime sample_upstream sample_url) = Inr (Some sample_page_data)
   \<and> page_review \<in> set (initialReviews sample_page_data)
   \<and> ge4 sample_runtime (rating page_review)
   \<and> fst (fetchReviewsViaGraphQL sample_runtime sample_upstream ''kca://work/w1'' (Some ''tok2'')
            ''cfg-key'') = Some sample_result
   \<and> edge_review \<in> set (reviews sample_result)
   \<and> ge4 sample_runtime (rating edge_review)
   \<and> rating page_review = Some (JNum (of_int 5))"
proof -
  have page: "fst (fetchBookPageData sample_runtime sample_upstream sample_url)
                = Inr (Some sample_page_data)"
    by code_simp
  have first: "page_review \<in> set (initialReviews sample_page_data)"
    by (simp add: sample_page_data_def)
  have cursor: "fst (fetchReviewsViaGraphQL sample_runtime sample_upstream ''kca://work/w1''
                       (Some ''tok2'') ''cfg-key'') = Some sample_result"
    by code_simp
  have second: "edge_review \<in> set (reviews sample_result)"
    by (simp add: sample_result_def)
  have five: "rating page_review = Some (JNum (of_int 5))"
    by (simp add: page_review_def)
  from ratings_at_least_four [of sample_runtime sample_upstream sample_url sample_page_data
      page_review] page first
  have a: "ge4 sample_runtime (rating page_review)" by blast
  from ratings_at_least_four [of sample_runtime sample_upstream _ _ edge_review "''kca://work/w1''"
      "Some ''tok2''" "''cfg-key''" sample_result] cursor second
  have b: "ge4 sample_runtime (rating edge_review)" by blast
  from page first a cursor second b five show ?thesis by blast
qed

section \<open>Markup removal\<close>

text \<open>The first element that \<open>dropWhile\<close> keeps, and what it dropped before it.\<close>

lemma dropWhile_Cons_hd:
  assumes "dropWhile P xs = g # rest"
  shows "\<not> P g \<and> (\<exists>b. xs = b @ g # rest \<and> (\<forall>x\<in>set b. P x))"
proof -
  have "takeWhile P xs @ dropWhile P xs = xs" by (rule takeWhile_dropWhile_id)
  with assms have split: "xs = takeWhile P xs @ g # rest" by (simp only:)
  have "dropWhile P xs \<noteq> []" using assms by simp
  then have "\<not> P (hd (dropWhile P xs))" by (rule hd_dropWhile)
  with assms have "\<not> P g" by simp
  moreover have "\<forall>x\<in>set (takeWhile P xs). P x" by (blast dest: set_takeWhileD)
  ultimately show ?thesis using split by blast
qed

lemma matchTag_Some:
  "matchTag s = Some rest \<longleftrightarrow>
     (\<exists>b. CHR ''>'' \<notin> set b \<and> s = CHR ''<'' # b @ CHR ''>'' # rest)"
proof (cases s)
  case Nil
  then show ?thesis by simp
next
  case (Cons c cs)
  let ?P = "\<lambda>x. x \<noteq> CHR ''>''"
  show ?thesis
  proof
    assume m: "matchTag s = Some rest"
    with Cons have c: "c = CHR ''<''" by (simp split: if_splits)
    from m Cons c obtain g where g: "dropWhile ?P cs = g # rest"
      by (simp split: list.splits)
    from dropWhile_Cons_hd [OF g] obtain b where "g = CHR ''>''" and "cs = b @ g # rest"
      and "\<forall>x\<in>set b. x \<noteq> CHR ''>''" by blast
    then have "s = CHR ''<'' # b @ CHR ''>'' # rest" and "CHR ''>'' \<notin> set b"
      using Cons c by auto
    then show "\<exists>b. CHR ''>'' \<notin> set b \<and> s = CHR ''<'' # b @ CHR ''>'' # rest"
      by blast
  next
    assume "\<exists>b. CHR ''>'' \<notin> set b \<and> s = CHR ''<'' # b @ CHR ''>'' # rest"
    then obtain b where b: "CHR ''>'' \<notin> set b" "s = CHR ''<'' # b @ CHR ''>'' # rest" by blast
    from b(1) have "dropWhile ?P (b @ CHR ''>'' # rest) = CHR ''>'' # rest"
      by (induction b) auto
    with b(2) show "matchTag s = Some rest" by simp
  qed
qed


lemma matchTag_None:
  "matchTag (c # cs) = None \<longleftrightarrow> c \<noteq> CHR ''<'' \<or> CHR ''>'' \<notin> set cs"
proof (cases "dropWhile (\<lambda>x. x \<noteq> CHR ''>'') cs")
  case Nil
  then have "\<forall>x\<in>set cs. x \<noteq> CHR ''>''" by (simp only: dropWhile_eq_Nil_conv)
  then have "CHR ''>'' \<notin> set cs" by blast
  moreover from Nil have "matchTag (c # cs) = None" by (simp del: dropWhile_eq_Nil_conv)
  ultimately show ?thesis by blast
next
  case (Cons g rest)
  from dropWhile_Cons_hd [OF Cons] obtain b where "g = CHR ''>''" and "cs = b @ g # rest"
    by blast
  then have "CHR ''>'' \<in> set cs" by simp
  moreover from Cons have "matchTag (c # cs) = (if c = CHR ''<'' then Some rest else None)"
    by simp
  ultimately show ?thesis by simp
qed

lemma matchTag_set:
  assumes "matchTag s = Some rest"
  shows "set rest \<subseteq> set s"
proof -
  from assms obtain b where "s = CHR ''<'' # b @ CHR ''>'' # rest"
    unfolding matchTag_Some by blast
  then show ?thesis by auto
qed

lemma stripAllTags_match:
  "matchTag (c # cs) = Some rest \<Longrightarrow> stripAllTags (c # cs) = stripAllTags rest"
  by (simp del: matchTag.simps)

lemma stripAllTags_nomatch:
  "matchTag (c # cs) = None \<Longrightarrow> stripAllTags (c # cs) = c # stripAllTags cs"
  by (simp del: matchTag.simps)

lemma set_stripAllTags: "set (stripAllTags s) \<subseteq> set s"
proof (induction s rule: stripAllTags.induct)
  case 1
  show ?case by simp
next
  case (2 c cs)
  show ?case
  proof (cases "matchTag (c # cs)")
    case None
    from 2(1) [OF None] have "set (c # stripAllTags cs) \<subseteq> set (c # cs)" by auto
    then show ?thesis by (simp only: stripAllTags_nomatch [OF None])
  next
    case (Some rest)
    from 2(2) [OF Some] matchTag_set [OF Some]
    have "set (stripAllTags rest) \<subseteq> set (c # cs)" by blast
    then show ?thesis by (simp only: stripAllTags_match [OF Some])
  qed
qed

text \<open>After a \<^verbatim>\<open><\<close> of the result there is no \<^verbatim>\<open>>\<close>.\<close>

lemma stripAllTags_open:
  "stripAllTags s = a @ CHR ''<'' # r \<Longrightarrow> CHR ''>'' \<notin> set r"
proof (induction s arbitrary: a r rule: stripAllTags.induct)
  case 1
  then show ?case by simp
next
  case (2 c cs)
  show ?case
  proof (cases "matchTag (c # cs)")
    case (Some rest)
    from 2(3) have "stripAllTags rest = a @ CHR ''<'' # r"
      by (simp only: stripAllTags_match [OF Some])
    from 2(2) [OF Some this] show ?thesis .
  next
    case None
    from 2(3) have eq: "c # stripAllTags cs = a @ CHR ''<'' # r"
      by (simp only: stripAllTags_nomatch [OF None])
    show ?thesis
    proof (cases a)
      case Nil
      with eq have c: "c = CHR ''<''" and r: "r = stripAllTags cs" by simp_all
      from None c have "CHR ''>'' \<notin> set cs" by (simp only: matchTag_None) simp
      with set_stripAllTags [of cs] r show ?thesis by blast
    next
      case (Cons x a')
      with eq have "stripAllTags cs = a' @ CHR ''<'' # r" by simp
      from 2(1) [OF None this] show ?thesis .
    qed
  qed
qed

lemma stripAllTags_no_markup:
  "\<nexists>a b c. stripAllTags s = a @ CHR ''<'' # b @ CHR ''>'' # c"
proof
  assume "\<exists>a b c. stripAllTags s = a @ CHR ''<'' # b @ CHR ''>'' # c"
  then obtain a b c where "stripAllTags s = a @ CHR ''<'' # (b @ CHR ''>'' # c)" by blast
  from stripAllTags_open [OF this] show False by simp
qed

lemma stripAllTags_removes:
  "CHR ''<'' \<notin> set a \<Longrightarrow> CHR ''>'' \<notin> set b \<Longrightarrow>
     stripAllTags (a @ CHR ''<'' # b @ CHR ''>'' # c) = a @ stripAllTags c"
proof (induction a)
  case Nil
  then have "matchTag (CHR ''<'' # b @ CHR ''>'' # c) = Some c"
    unfolding matchTag_Some by blast
  from stripAllTags_match [OF this] show ?case by simp
next
  case (Cons x a)
  then have "x \<noteq> CHR ''<''" by auto
  then have "matchTag (x # a @ CHR ''<'' # b @ CHR ''>'' # c) = None"
    by (simp only: matchTag_None) simp
  from stripAllTags_nomatch [OF this] Cons show ?case by simp
qed

lemma stripAllTags_keeps:
  "(\<nexists>a b c. s = a @ CHR ''<'' # b @ CHR ''>'' # c) \<Longrightarrow> stripAllTags s = s"
proof (induction s)
  case Nil
  show ?case by simp
next
  case (Cons x s)
  have none: "matchTag (x # s) = None"
  proof (cases "matchTag (x # s)")
    case None
    then show ?thesis .
  next
    case (Some rest)
    then obtain b where "x # s = [] @ CHR ''<'' # b @ CHR ''>'' # rest"
      unfolding matchTag_Some by auto
    with Cons.prems show ?thesis by blast
  qed
  have "\<nexists>a b c. s = a @ CHR ''<'' # b @ CHR ''>'' # c"
  proof
    assume "\<exists>a b c. s = a @ CHR ''<'' # b @ CHR ''>'' # c"
    then obtain a b c where "s = a @ CHR ''<'' # b @ CHR ''>'' # c" by blast
    then have "x # s = (x # a) @ CHR ''<'' # b @ CHR ''>'' # c" by simp
    with Cons.prems show False by blast
  qed
  with Cons.IH have "stripAllTags s = s" by blast
  with stripAllTags_nomatch [OF none] show ?case by simp
qed

lemma contentOf_Some:
  "contentOf t = Some c \<Longrightarrow>
     c = (case t of Some (JStr s) \<Rightarrow> stripAllTags s | _ \<Rightarrow> [])"
  by (cases t) (auto simp: contentOf_def split: json.splits)

lemma contentOf_no_markup:
  assumes "contentOf t = Some c0"
  shows "\<nexists>a b c. c0 = a @ CHR ''<'' # b @ CHR ''>'' # c"
proof (cases "\<exists>s. t = Some (JStr s)")
  case True
  then obtain s where "t = Some (JStr s)" by blast
  with contentOf_Some [OF assms] have "c0 = stripAllTags s" by simp
  with stripAllTags_no_markup [of s] show ?thesis by simp
next
  case False
  with contentOf_Some [OF assms] have "c0 = []"
    by (auto split: option.splits json.splits)
  then show ?thesis by simp
qed

text \<open>
  Claim C2. On both fetch paths the content of a produced review is the raw text of the
  record with the matches of \<^verbatim>\<open>/<[^>]*>/g\<close> removed (the empty string when the record has
  no text), and no part of it runs from a \<^verbatim>\<open><\<close> to a later \<^verbatim>\<open>>\<close>. The removal goes
  from left to right and is not repeated on its result: in front of the first \<^verbatim>\<open><\<close>
  that a \<^verbatim>\<open>>\<close> follows nothing changes, the text from there to the nearest \<^verbatim>\<open>>\<close> is
  dropped, and the search goes on behind it; a text without such a part is left as it is.
\<close>

theorem content_without_markup:
  "(pageReview rt st k = Push rv \<longrightarrow>
      content rv = (case getProp (getProp (Some st) k) ''text'' of
                      Some (JStr s) \<Rightarrow> stripAllTags s | _ \<Rightarrow> []))
   \<and> (edgeReview rt edge = Push rv \<longrightarrow>
      content rv = (case getProp (getProp (Some edge) ''node'') ''text'' of
                      Some (JStr s) \<Rightarrow> stripAllTags s | _ \<Rightarrow> []))
   \<and> (fst (fetchBookPageData rt up target) = Inr (Some d) \<and> rv \<in> set (initialReviews d) \<longrightarrow>
        (\<nexists>a b c. content rv = a @ CHR ''<'' # b @ CHR ''>'' # c))
   \<and> (fst (fetchReviewsViaGraphQL rt up work tok key) = Some g \<and> rv \<in> set (reviews g) \<longrightarrow>
        (\<nexists>a b c. content rv = a @ CHR ''<'' # b @ CHR ''>'' # c))
   \<and> (CHR ''<'' \<notin> set x \<and> CHR ''>'' \<notin> set y \<longrightarrow>
        stripAllTags (x @ CHR ''<'' # y @ CHR ''>'' # z) = x @ stripAllTags z)
   \<and> ((\<nexists>a b c. t = a @ CHR ''<'' # b @ CHR ''>'' # c) \<longrightarrow> stripAllTags t = t)
   \<and> (\<nexists>a b c. stripAllTags t = a @ CHR ''<'' # b @ CHR ''>'' # c)"
proof -
  have p1: "content r = (case getProp (getProp (Some st) k) ''text'' of
                      Some (JStr s) \<Rightarrow> stripAllTags s | _ \<Rightarrow> [])"
    if "pageReview rt st k = Push r" for r
    using contentOf_Some [OF pageReview_Push(3) [OF that]] .
  have p2: "content r = (case getProp (getProp (Some edge) ''node'') ''text'' of
                      Some (JStr s) \<Rightarrow> stripAllTags s | _ \<Rightarrow> [])"
    if "edgeReview rt edge = Push r" for r
    using contentOf_Some [OF edgeReview_Push(3) [OF that]] .
  have p3: "\<nexists>a b c. content r = a @ CHR ''<'' # b @ CHR ''>'' # c"
    if "fst (fetchBookPageData rt up target) = Inr (Some d)" and "r \<in> set (initialReviews d)"
    for r
  proof -
    from fetchBookPageData_Some [OF that(1)] obtain doc where "parsePage rt doc = Some d"
      by blast
    from parsePage_reviews [OF this that(2)] obtain st' k' where "pageReview rt st' k' = Push r"
      by blast
    from contentOf_no_markup [OF pageReview_Push(3) [OF this]] show ?thesis .
  qed
  have p4: "\<nexists>a b c. content r = a @ CHR ''<'' # b @ CHR ''>'' # c"
    if "fst (fetchReviewsViaGraphQL rt up work tok key) = Some g" and "r \<in> set (reviews g)"
    for r
  proof -
    from fetchReviewsViaGraphQL_Some [OF that(1)] obtain data where
      "readConnection rt data = Some g" by blast
    from readConnection_reviews [OF this that(2)] obtain e where "edgeReview rt e = Push r"
      by blast
    from contentOf_no_markup [OF edgeReview_Push(3) [OF this]] show ?thesis .
  qed
  from p1 p2 p3 p4 stripAllTags_removes [of x y z] stripAllTags_keeps [of t]
    stripAllTags_no_markup [of t]
  show ?thesis by blast
qed

theorem content_without_markup_witness:
  "pageReview sample_runtime sample_state ''Review:r1'' = Push page_review
   \<and> content page_review = stripAllTags ''<b>Great</b> read''
   \<and> content page_review = ''Great read''
   \<and> edgeReview sample_runtime sample_edge = Push edge_review
   \<and> content edge_review = stripAllTags ''so <i>good</i>''
   \<and> content edge_review = ''so good''
   \<and> (\<nexists>a b c. content page_review = a @ CHR ''<'' # b @ CHR ''>'' # c)
   \<and> (\<nexists>a b c. content edge_review = a @ CHR ''<'' # b @ CHR ''>'' # c)
   \<and> stripAllTags (''so '' @ CHR ''<'' # ''i'' @ CHR ''>'' # ''good'') = ''so '' @ stripAllTags ''good''"
proof -
  have push1: "pageReview sample_runtime sample_state ''Review:r1'' = Push page_review"
    by code_simp
  have text1: "getProp (getProp (Some sample_state) ''Review:r1'') ''text''
                 = Some (JStr ''<b>Great</b> read'')"
    by code_simp
  have push2: "edgeReview sample_runtime sample_edge = Push edge_review"
    by code_simp
  have text2: "getProp (getProp (Some sample_edge) ''node'') ''text'' = Some (JStr ''so <i>good</i>'')"
    by code_simp
  have page: "fst (fetchBookPageData sample_runtime sample_upstream sample_url)
                = Inr (Some sample_page_data)"
    by code_simp
  have first: "page_review \<in> set (initialReviews sample_page_data)"
    by (simp add: sample_page_data_def)
  have cursor: "fst (fetchReviewsViaGraphQL sample_runtime sample_upstream ''kca://work/w1''
                       (Some ''tok2'') ''cfg-key'') = Some sample_result"
    by code_simp
  have second: "edge_review \<in> set (reviews sample_result)"
    by (simp add: sample_result_def)
  have lt: "CHR ''<'' \<notin> set ''so ''" and gt: "CHR ''>'' \<notin> set ''i''" by simp_all
  have c1: "content page_review = ''Great read''" by (simp add: page_review_def)
  have c2: "content edge_review = ''so good''" by (simp add: edge_review_def)
  note thm1 = content_without_markup [of sample_runtime sample_state "''Review:r1''" page_review
      sample_edge sample_upstream sample_url sample_page_data "''kca://work/w1''" "Some ''tok2''"
      "''cfg-key''" sample_result "''so ''" "''i''" "''good''" "[]"]
  note thm2 = content_without_markup [of sample_runtime sample_state "''Review:r1''" edge_review
      sample_edge sample_upstream sample_url sample_page_data "''kca://work/w1''" "Some ''tok2''"
      "''cfg-key''" sample_result "''so ''" "''i''" "''good''" "[]"]
  from thm1 push1 text1 have a: "content page_review = stripAllTags ''<b>Great</b> read''"
    by simp
  from thm2 push2 text2 have b: "content edge_review = stripAllTags ''so <i>good</i>''"
    by simp
  from thm1 page first have c: "\<nexists>a b c. content page_review = a @ CHR ''<'' # b @ CHR ''>'' # c"
    by blast
  from thm2 cursor second have d: "\<nexists>a b c. content edge_review = a @ CHR ''<'' # b @ CHR ''>'' # c"
    by blast
  from thm1 lt gt have e: "stripAllTags (''so '' @ CHR ''<'' # ''i'' @ CHR ''>'' # ''good'')
      = ''so '' @ stripAllTags ''good''" by blast
  from push1 a c1 push2 b c2 c d e show ?thesis by blast
qed

section \<open>The access credential\<close>

text \<open>What a successful reading of the state returns.\<close>

lemma readState_fields:
  assumes "readState rt doc nextData st = Some d"
  shows "apiKey d = extractApiKey doc nextData"
    and "\<exists>x. nextPageToken d = or_default x JNull"
  using assms
  by (auto simp: readState_def Let_def split: option.splits)

lemma parsePage_Some:
  assumes "parsePage rt doc = Some d"
  shows "\<exists>txt nextData st. nextDataHtml doc = Some txt \<and> txt \<noteq> []
           \<and> JSON_parse rt txt = Some nextData
           \<and> apolloStateOf nextData = Some st
           \<and> truthy st \<and> readState rt doc nextData st = Some d"
  using assms
  by (auto simp: parsePage_def split: option.splits if_splits)

lemma scanScripts_first:
  assumes "\<forall>x\<in>set pre. apiKeyMatch (scriptContent x) = None"
    and "apiKeyMatch (scriptContent h) = Some k"
  shows "scanScripts (pre @ h # post) = Some k"
  using assms by (induction pre) simp_all

lemma scanScripts_none:
  "(\<forall>x\<in>set hs. apiKeyMatch (scriptContent x) = None) \<Longrightarrow> scanScripts hs = None"
  by (induction hs) simp_all

text \<open>
  Claim C3, as stated, fails: the scripts of the sample page hold a match of the
  credential pattern, and yet the credential of the bootstrap is the field of the
  runtime configuration, not the match that the order of the specification gives.
\<close>

theorem credential_order_counterexample:
  "scanScripts (scriptHtmls sample_doc) = Some ''da2-abc123''
   \<and> fst (fetchBookPageData sample_runtime sample_upstream sample_url) = Inr (Some sample_page_data)
   \<and> apiKey sample_page_data = JStr ''cfg-key''
   \<and> spec_credential sample_doc sample_nextData = JStr ''da2-abc123''
   \<and> apiKey sample_page_data \<noteq> spec_credential sample_doc sample_nextData"
  by code_simp

text \<open>
  Claim C3, amended. The credential of a bootstrap is the field \<^verbatim>\<open>apiKey\<close> of the
  runtime configuration when that is truthy, whatever the scripts hold; otherwise the
  first match of the credential pattern in the script contents, in document order;
  otherwise the fallback constant.
\<close>

theorem credential_priority:
  assumes "fetch_page up target = Inr resp" and "html resp = Inr doc"
    and "nextDataHtml doc = Some txt" and "JSON_parse rt txt = Some nextData"
    and "fst (fetchBookPageData rt up target) = Inr (Some d)"
  shows "(\<forall>v. getProp (runtimeConfigOf nextData) ''apiKey'' = Some v \<and> truthy v \<longrightarrow> apiKey d = v)
     \<and> (\<not> truthy_val (getProp (runtimeConfigOf nextData) ''apiKey'') \<longrightarrow>
          (\<forall>k. scanScripts (scriptHtmls doc) = Some k \<longrightarrow> apiKey d = JStr k)
          \<and> (scanScripts (scriptHtmls doc) = None \<longrightarrow> apiKey d = JStr FALLBACK_API_KEY))
     \<and> (\<forall>pre h post k. scriptHtmls doc = pre @ h # post
            \<and> (\<forall>x\<in>set pre. apiKeyMatch (scriptContent x) = None)
            \<and> apiKeyMatch (scriptContent h) = Some k \<longrightarrow>
          scanScripts (scriptHtmls doc) = Some k)
     \<and> ((\<forall>x\<in>set (scriptHtmls doc). apiKeyMatch (scriptContent x) = None) \<longrightarrow>
          scanScripts (scriptHtmls doc) = None)"
proof -
  from fetchBookPageData_Some [OF assms(5)] assms(1,2) have "parsePage rt doc = Some d"
    by auto
  from parsePage_Some [OF this] assms(3,4) obtain st where "readState rt doc nextData st = Some d"
    by auto
  from readState_fields(1) [OF this] have key: "apiKey d = extractApiKey doc nextData" .
  have config: "apiKey d = v"
    if "getProp (runtimeConfigOf nextData) ''apiKey'' = Some v" and "truthy v" for v
    using that key by (simp add: extractApiKey_def)
  have falsy: "extractApiKey doc nextData
                 = (case scanScripts (scriptHtmls doc) of
                      None \<Rightarrow> JStr FALLBACK_API_KEY | Some k \<Rightarrow> JStr k)"
    if "\<not> truthy_val (getProp (runtimeConfigOf nextData) ''apiKey'')"
    using that by (cases "getProp (runtimeConfigOf nextData) ''apiKey''")
      (simp_all add: extractApiKey_def)
  have script: "apiKey d = JStr k"
    if "\<not> truthy_val (getProp (runtimeConfigOf nextData) ''apiKey'')"
      and "scanScripts (scriptHtmls doc) = Some k" for k
    using falsy [OF that(1)] that(2) key by simp
  have fallback: "apiKey d = JStr FALLBACK_API_KEY"
    if "\<not> truthy_val (getProp (runtimeConfigOf nextData) ''apiKey'')"
      and "scanScripts (scriptHtmls doc) = None"
    using falsy [OF that(1)] that(2) key by simp
  have first: "scanScripts (scriptHtmls doc) = Some k"
    if "scriptHtmls doc = pre @ h # post"
      and "\<forall>x\<in>set pre. apiKeyMatch (scriptContent x) = None"
      and "apiKeyMatch (scriptContent h) = Some k" for pre h post k
    using scanScripts_first [OF that(2,3), of post] that(1) by simp
  from config script fallback first scanScripts_none [of "scriptHtmls doc"]
  show ?thesis by blast
qed

theorem credential_priority_witness:
  "apiKey sample_page_data = JStr ''cfg-key''
   \<and> scanScripts (scriptHtmls sample_doc) = Some ''da2-abc123''
   \<and> apiKey plain_page_data = JStr ''da2-abc123''
   \<and> scanScripts (scriptHtmls plain_doc) = Some ''da2-abc123''"
proof -
  have f1: "fetch_page sample_upstream sample_url = Inr \<lparr>ok = True, html = Inr sample_doc\<rparr>"
    by (simp add: sample_upstream_def)
  have h1: "html \<lparr>ok = True, html = Inr sample_doc\<rparr> = Inr sample_doc" by simp
  have n1: "nextDataHtml sample_doc = Some sample_text" by (simp add: sample_doc_def)
  have j1: "JSON_parse sample_runtime sample_text = Some sample_nextData"
    by (simp add: sample_runtime_def)
  have r1: "fst (fetchBookPageData sample_runtime sample_upstream sample_url)
              = Inr (Some sample_page_data)"
    by code_simp
  have k1: "getProp (runtimeConfigOf sample_nextData) ''apiKey'' = Some (JStr ''cfg-key'')"
    by code_simp
  have t1: "truthy (JStr ''cfg-key'')" by simp
  from credential_priority [OF f1 h1 n1 j1 r1] k1 t1
  have a: "apiKey sample_page_data = JStr ''cfg-key''" by blast
  have f2: "fetch_page plain_upstream sample_url = Inr \<lparr>ok = True, html = Inr plain_doc\<rparr>"
    by (simp add: plain_upstream_def)
  have h2: "html \<lparr>ok = True, html = Inr plain_doc\<rparr> = Inr plain_doc" by simp
  have n2: "nextDataHtml plain_doc = Some plain_text" by (simp add: plain_doc_def)
  have j2: "JSON_parse sample_runtime plain_text = Some plain_nextData"
    by code_simp
  have r2: "fst (fetchBookPageData sample_runtime plain_upstream sample_url)
              = Inr (Some plain_page_data)"
    by code_simp
  have k2: "\<not> truthy_val (getProp (runtimeConfigOf plain_nextData) ''apiKey'')"
    by code_simp
  have s1: "scanScripts (scriptHtmls sample_doc) = Some ''da2-abc123''" by code_simp
  have s2: "scanScripts (scriptHtmls plain_doc) = Some ''da2-abc123''" by code_simp
  from credential_priority [OF f2 h2 n2 j2 r2] k2 s2
  have b: "apiKey plain_page_data = JStr ''da2-abc123''" by blast
  from a s1 b s2 show ?thesis by blast
qed

section \<open>What the pagination object echoes\<close>

text \<open>
  Claim C4, as stated, fails: the answer to the second sample request, a successful
  cursor fetch to which the caller gave a credential, has a pagination object with the
  work identifier and without a property \<^verbatim>\<open>apiKey\<close>.
\<close>

theorem pagination_echo_counterexample:
  "fst (GET sample_runtime sample_upstream second_request)
     = \<lparr>status = 200, body = SuccessBody second_success\<rparr>
   \<and> req_apiKey second_request = Some ''cfg-key''
   \<and> pg_workId (pagination second_success) = ''kca://work/w1''
   \<and> pg_apiKey (pagination second_success) = None"
  by code_simp

text \<open>
  Claim C4, amended. The pagination object of every successful response echoes the work
  identifier. The one of a successful bootstrap holds the work identifier and the
  credential that the bootstrap found; the one of a successful cursor fetch holds the
  work identifier that the caller gave and no credential.
\<close>

theorem pagination_echo:
  assumes "fst (GET rt up rq) = \<lparr>status = c, body = SuccessBody s\<rparr>"
  shows "(bootstrapMode rq \<longrightarrow>
            (\<exists>target d. url rq = Some target
               \<and> fst (fetchBookPageData rt up target) = Inr (Some d)
               \<and> pg_workId (pagination s) = workId d
               \<and> pg_apiKey (pagination s) = Some (apiKey d)))
       \<and> (\<not> bootstrapMode rq \<longrightarrow>
            req_workId rq = Some (pg_workId (pagination s))
            \<and> pg_apiKey (pagination s) = None)"
proof -
  from GET_success [OF assms] show ?thesis
  proof (elim disjE exE conjE)
    fix target d
    assume "url rq = Some target" and "bootstrapMode rq"
      and "fst (fetchBookPageData rt up target) = Inr (Some d)"
      and "\<lparr>status = c, body = SuccessBody s\<rparr> = bootstrapResponse d"
    then show ?thesis by (auto simp: bootstrapResponse_def)
  next
    fix work g
    assume "req_workId rq = Some work" and "\<not> bootstrapMode rq"
      and "\<lparr>status = c, body = SuccessBody s\<rparr> = cursorResponse (pageOf rq) work g"
    then show ?thesis by (auto simp: cursorResponse_def)
  qed
qed

theorem pagination_echo_witness:
  "bootstrapMode first_request
   \<and> pg_workId (pagination first_success) = workId sample_page_data
   \<and> pg_apiKey (pagination first_success) = Some (apiKey sample_page_data)
   \<and> \<not> bootstrapMode second_request
   \<and> req_workId second_request = Some (pg_workId (pagination second_success))
   \<and> pg_apiKey (pagination second_success) = None"
proof -
  have r1: "fst (GET sample_runtime sample_upstream first_request)
              = \<lparr>status = 200, body = SuccessBody first_success\<rparr>"
    by code_simp
  have m1: "bootstrapMode first_request" by code_simp
  have u1: "url first_request = Some sample_url" by (simp add: first_request_def)
  have d1: "fst (fetchBookPageData sample_runtime sample_upstream sample_url)
              = Inr (Some sample_page_data)"
    by code_simp
  from pagination_echo [OF r1] m1 u1 d1
  have a: "pg_workId (pagination first_success) = workId sample_page_data
           \<and> pg_apiKey (pagination first_success) = Some (apiKey sample_page_data)"
    by auto
  have r2: "fst (GET sample_runtime sample_upstream second_request)
              = \<lparr>status = 200, body = SuccessBody second_success\<rparr>"
    by code_simp
  have m2: "\<not> bootstrapMode second_request" by code_simp
  from pagination_echo [OF r2] m2
  have b: "req_workId second_request = Some (pg_workId (pagination second_success))
           \<and> pg_apiKey (pagination second_success) = None"
    by blast
  from m1 a m2 b show ?thesis by blast
qed

section \<open>The two modes of the handler\<close>

text \<open>The token of a bootstrap is \<^verbatim>\<open>null\<close> or truthy, because of \<^verbatim>\<open>|| null\<close>.\<close>

lemma or_default_JNull: "truthy (or_default x JNull) \<longleftrightarrow> or_default x JNull \<noteq> JNull"
proof (cases x)
  case None
  then show ?thesis by (simp add: or_default_def)
next
  case (Some v)
  then show ?thesis by (cases "truthy v") (auto simp: or_default_def)
qed

lemma bootstrap_token:
  assumes "fst (fetchBookPageData rt up target) = Inr (Some d)"
  shows "truthy (nextPageToken d) \<longleftrightarrow> nextPageToken d \<noteq> JNull"
proof -
  from fetchBookPageData_Some [OF assms] obtain doc where "parsePage rt doc = Some d" by blast
  from parsePage_Some [OF this] obtain nextData st where "readState rt doc nextData st = Some d"
    by blast
  from readState_fields(2) [OF this] obtain x where "nextPageToken d = or_default x JNull"
    by blast
  with or_default_JNull [of x] show ?thesis by simp
qed

lemma bootstrapMode_page: "pageOf rq = Num 1 \<Longrightarrow> bootstrapMode rq"
  by (simp add: bootstrapMode_def)

lemma pageOf_independent:
  "pageOf (rq\<lparr>pageToken := t, req_workId := w, req_apiKey := k\<rparr>) = pageOf rq"
  by (simp add: pageOf_def)

text \<open>
  Claim C5. A request that passes the validation of its \<^verbatim>\<open>url\<close> and whose page is 1 is
  served by the bootstrap: the only upstream call is the fetch of the book page, and the
  answer does not depend on the \<^verbatim>\<open>pageToken\<close>, \<^verbatim>\<open>workId\<close> and \<^verbatim>\<open>apiKey\<close> of the request.
  When the bootstrap succeeds, the handler answers with status 200, the book and the
  reviews of the bootstrap, \<^verbatim>\<open>currentPage\<close> 1, \<^verbatim>\<open>hasPrev\<close> false, and \<^verbatim>\<open>hasNext\<close> true exactly
  when the token of the bootstrap is not \<^verbatim>\<open>null\<close>; and the handler answers a success only
  when the bootstrap succeeds.
\<close>

theorem page_one_bootstraps:
  assumes "url rq = Some target" and "target \<noteq> []" and "includes_str target ''goodreads.com''"
    and "pageOf rq = Num 1"
  shows "snd (GET rt up rq) = [PageFetch target]
     \<and> GET rt up (rq\<lparr>pageToken := t, req_workId := w, req_apiKey := k\<rparr>) = GET rt up rq
     \<and> (\<forall>d. fst (fetchBookPageData rt up target) = Inr (Some d) \<longrightarrow>
           fst (GET rt up rq) =
             \<lparr>status = 200,
              body = SuccessBody
                \<lparr>book = Some (bookInfo d),
                 res_reviews = initialReviews d,
                 totalFiltered = length (initialReviews d),
                 res_totalCount = totalCount d,
                 pagination =
                   \<lparr>currentPage = Num 1,
                    hasNext = (nextPageToken d \<noteq> JNull),
                    hasPrev = False,
                    pg_nextPageToken = nextPageToken d,
                    pg_workId = workId d,
                    pg_apiKey = Some (apiKey d)\<rparr>\<rparr>\<rparr>)
     \<and> (\<forall>c s. fst (GET rt up rq) = \<lparr>status = c, body = SuccessBody s\<rparr> \<longrightarrow>
           (\<exists>d. fst (fetchBookPageData rt up target) = Inr (Some d)
              \<and> currentPage (pagination s) = Num 1
              \<and> \<not> hasPrev (pagination s)
              \<and> (hasNext (pagination s) \<longleftrightarrow> nextPageToken d \<noteq> JNull)
              \<and> pg_nextPageToken (pagination s) = nextPageToken d))"
proof -
  let ?rq' = "rq\<lparr>pageToken := t, req_workId := w, req_apiKey := k\<rparr>"
  note G = GET_bootstrap [OF assms(1-3) bootstrapMode_page [OF assms(4)], of rt up]
  have calls: "snd (GET rt up rq) = [PageFetch target]" by (simp add: G)
  have "url ?rq' = Some target" using assms(1) by simp
  moreover have "bootstrapMode ?rq'"
    using assms(4) by (simp add: bootstrapMode_def pageOf_independent)
  ultimately have same: "GET rt up ?rq' = GET rt up rq"
    using GET_bootstrap [OF _ assms(2,3), of ?rq' rt up] G by simp
  have forward: "fst (GET rt up rq) =
             \<lparr>status = 200,
              body = SuccessBody
                \<lparr>book = Some (bookInfo d),
                 res_reviews = initialReviews d,
                 totalFiltered = length (initialReviews d),
                 res_totalCount = totalCount d,
                 pagination =
                   \<lparr>currentPage = Num 1,
                    hasNext = (nextPageToken d \<noteq> JNull),
                    hasPrev = False,
                    pg_nextPageToken = nextPageToken d,
                    pg_workId = workId d,
                    pg_apiKey = Some (apiKey d)\<rparr>\<rparr>\<rparr>"
    if d: "fst (fetchBookPageData rt up target) = Inr (Some d)" for d
  proof -
    from G d have "fst (GET rt up rq) = bootstrapResponse d" by simp
    with bootstrap_token [OF d] show ?thesis by (simp add: bootstrapResponse_def)
  qed
  have backward: "\<exists>d. fst (fetchBookPageData rt up target) = Inr (Some d)
              \<and> currentPage (pagination s) = Num 1
              \<and> \<not> hasPrev (pagination s)
              \<and> (hasNext (pagination s) \<longleftrightarrow> nextPageToken d \<noteq> JNull)
              \<and> pg_nextPageToken (pagination s) = nextPageToken d"
    if "fst (GET rt up rq) = \<lparr>status = c, body = SuccessBody s\<rparr>" for c s
  proof -
    from that G obtain d where d: "fst (fetchBookPageData rt up target) = Inr (Some d)"
      by (auto simp: failure_def split: sum.splits option.splits)
    from forward [OF d] that have "pagination s =
        \<lparr>currentPage = Num 1, hasNext = (nextPageToken d \<noteq> JNull), hasPrev = False,
         pg_nextPageToken = nextPageToken d, pg_workId = workId d,
         pg_apiKey = Some (apiKey d)\<rparr>"
      by simp
    with d show ?thesis by auto
  qed
  from calls same forward backward show ?thesis by blast
qed

theorem page_one_bootstraps_witness:
  "pageOf first_request = Num 1
   \<and> req_workId first_request = Some ''kca://work/w1''
   \<and> fst (fetchBookPageData sample_runtime sample_upstream sample_url)
       = Inr (Some sample_page_data)
   \<and> GET sample_runtime sample_upstream first_request
       = (\<lparr>status = 200, body = SuccessBody first_success\<rparr>, [PageFetch sample_url])
   \<and> GET sample_runtime sample_upstream
         (first_request\<lparr>pageToken := None, req_workId := None, req_apiKey := None\<rparr>)
       = GET sample_runtime sample_upstream first_request
   \<and> currentPage (pagination first_success) = Num 1
   \<and> \<not> hasPrev (pagination first_success)
   \<and> hasNext (pagination first_success)
   \<and> nextPageToken sample_page_data \<noteq> JNull"
proof -
  have u: "url first_request = Some sample_url" by (simp add: first_request_def)
  have n: "sample_url \<noteq> []" by (simp add: sample_url_def)
  have i: "includes_str sample_url ''goodreads.com''" by code_simp
  have p: "pageOf first_request = Num 1" by code_simp
  have w: "req_workId first_request = Some ''kca://work/w1''" by (simp add: first_request_def)
  have d: "fst (fetchBookPageData sample_runtime sample_upstream sample_url)
             = Inr (Some sample_page_data)"
    by code_simp
  have t: "nextPageToken sample_page_data \<noteq> JNull" by (simp add: sample_page_data_def)
  note inst = page_one_bootstraps [OF u n i p, of sample_runtime sample_upstream None None None]
  from inst have a: "snd (GET sample_runtime sample_upstream first_request) = [PageFetch sample_url]"
    by blast
  from inst have b: "GET sample_runtime sample_upstream
         (first_request\<lparr>pageToken := None, req_workId := None, req_apiKey := None\<rparr>)
       = GET sample_runtime sample_upstream first_request"
    by blast
  from inst d have "fst (GET sample_runtime sample_upstream first_request) =
             \<lparr>status = 200,
              body = SuccessBody
                \<lparr>book = Some (bookInfo sample_page_data),
                 res_reviews = initialReviews sample_page_data,
                 totalFiltered = length (initialReviews sample_page_data),
                 res_totalCount = totalCount sample_page_data,
                 pagination =
                   \<lparr>currentPage = Num 1,
                    hasNext = (nextPageToken sample_page_data \<noteq> JNull),
                    hasPrev = False,
                    pg_nextPageToken = nextPageToken sample_page_data,
                    pg_workId = workId sample_page_data,
                    pg_apiKey = Some (apiKey sample_page_data)\<rparr>\<rparr>\<rparr>"
    by blast
  then have r: "fst (GET sample_runtime sample_upstream first_request)
                  = \<lparr>status = 200, body = SuccessBody first_success\<rparr>"
    by (simp add: first_success_def sample_page_data_def)
  from r a have g: "GET sample_runtime sample_upstream first_request
       = (\<lparr>status = 200, body = SuccessBody first_success\<rparr>, [PageFetch sample_url])"
    by (simp add: prod_eq_iff)
  have f: "currentPage (pagination first_success) = Num 1" "\<not> hasPrev (pagination first_success)"
    "hasNext (pagination first_success)"
    by (simp_all add: first_success_def)
  from p w d g b f t show ?thesis by blast
qed

text \<open>
  Claim C6. A successful answer to a request for a page beyond the first, with a work
  identifier (the handler tests \<^verbatim>\<open>!workId\<close>, so an empty one counts as none), has
  \<^verbatim>\<open>book\<close> \<^verbatim>\<open>null\<close>: the only upstream call is the query to the review service, and the
  reviews, the total count and the pagination fields are those of its result.
\<close>

theorem later_pages_have_no_book:
  assumes "(\<exists>n. pageOf rq = Num n \<and> 1 < n) \<or> pageOf rq = PosInfinity"
    and "req_workId rq = Some work" and "work \<noteq> []"
    and "fst (GET rt up rq) = \<lparr>status = c, body = SuccessBody s\<rparr>"
  shows "book s = None
     \<and> (\<exists>target. url rq = Some target)
     \<and> snd (GET rt up rq) = [GraphQLFetch (variablesOf work (tokenOf rq) (keyOf rq))]
     \<and> (\<exists>g. fst (fetchReviewsViaGraphQL rt up work (tokenOf rq) (keyOf rq)) = Some g
           \<and> res_reviews s = reviews g
           \<and> totalFiltered s = length (reviews g)
           \<and> res_totalCount s = gq_totalCount g
           \<and> currentPage (pagination s) = pageOf rq
           \<and> hasPrev (pagination s)
           \<and> (hasNext (pagination s) \<longleftrightarrow> truthy (gq_nextPageToken g))
           \<and> pg_nextPageToken (pagination s) = gq_nextPageToken g
           \<and> pg_workId (pagination s) = work)"
proof -
  from assms(1) have gt: "gt1 (pageOf rq)" and other: "pageOf rq \<noteq> Num 1"
    by (auto simp: gt1_def)
  from other assms(2,3) have mode: "\<not> bootstrapMode rq" by (simp add: bootstrapMode_def)
  from GET_success [OF assms(4)] mode assms(2)
  obtain g where g: "fst (fetchReviewsViaGraphQL rt up work (tokenOf rq) (keyOf rq)) = Some g"
    and "\<lparr>status = c, body = SuccessBody s\<rparr> = cursorResponse (pageOf rq) work g"
    by auto
  then have s: "s = \<lparr>book = None, res_reviews = reviews g, totalFiltered = length (reviews g),
      res_totalCount = gq_totalCount g,
      pagination = \<lparr>currentPage = pageOf rq, hasNext = truthy (gq_nextPageToken g),
        hasPrev = True, pg_nextPageToken = gq_nextPageToken g, pg_workId = work,
        pg_apiKey = None\<rparr>\<rparr>"
    using gt by (simp add: cursorResponse_def)
  obtain target where target: "url rq = Some target" "target \<noteq> []"
    "includes_str target ''goodreads.com''"
  proof (cases "url rq")
    case None
    with assms(4) show ?thesis by (simp add: GET_def failure_def)
  next
    case (Some target)
    have "target \<noteq> [] \<and> includes_str target ''goodreads.com''"
    proof (rule ccontr)
      assume "\<not> (target \<noteq> [] \<and> includes_str target ''goodreads.com'')"
      with Some have "fst (GET rt up rq) = failure 400 ''Missing 'url' query parameter''
        \<or> fst (GET rt up rq) = failure 400 ''URL must be a Goodreads URL''"
        by (cases "target = []") (simp_all add: GET_def Let_def)
      with assms(4) show False by (auto simp: failure_def)
    qed
    with Some that show ?thesis by blast
  qed
  from GET_cursor [OF target mode assms(2), of rt up]
  have "snd (GET rt up rq) = [GraphQLFetch (variablesOf work (tokenOf rq) (keyOf rq))]"
    by simp
  with s g target(1) show ?thesis by simp
qed

theorem later_pages_have_no_book_witness:
  "pageOf second_request = Num 2
   \<and> fst (GET sample_runtime sample_upstream second_request)
       = \<lparr>status = 200, body = SuccessBody second_success\<rparr>
   \<and> book second_success = None
   \<and> res_reviews second_success = reviews sample_result
   \<and> res_totalCount second_success = gq_totalCount sample_result
   \<and> currentPage (pagination second_success) = Num 2
   \<and> hasPrev (pagination second_success)"
proof -
  have p: "pageOf second_request = Num 2" by code_simp
  then have p': "(\<exists>n. pageOf second_request = Num n \<and> 1 < n) \<or> pageOf second_request = PosInfinity"
    by simp
  have w: "req_workId second_request = Some ''kca://work/w1''"
    by (simp add: second_request_def)
  have r: "fst (GET sample_runtime sample_upstream second_request)
             = \<lparr>status = 200, body = SuccessBody second_success\<rparr>"
    by code_simp
  have g: "fst (fetchReviewsViaGraphQL sample_runtime sample_upstream ''kca://work/w1''
                  (tokenOf second_request) (keyOf second_request)) = Some sample_result"
    by code_simp
  from later_pages_have_no_book [OF p' w _ r] g p
  have "book second_success = None
     \<and> res_reviews second_success = reviews sample_result
     \<and> res_totalCount second_success = gq_totalCount sample_result
     \<and> currentPage (pagination second_success) = Num 2
     \<and> hasPrev (pagination second_success)"
    by auto
  with p r show ?thesis by blast
qed





section \<open>Failures of the bootstrap\<close>

lemma readState_no_work:
  assumes "objectKeys (Some st) = Some keys"
    and "find (\<lambda>k. startsWith k ''Work:kca://work/'') keys = None"
  shows "readState rt doc nextData st = None"
  using assms by (simp add: readState_def)

text \<open>
  Claim C8. When the handler bootstraps and the book page answers, each of these ends in
  the same response, status 500 with the one message \<^verbatim>\<open>Failed to fetch book data\<close> and
  no data: a status of the page that is not a success, no hydration-state script element
  (or an empty one), a state that \<^verbatim>\<open>JSON.parse\<close> rejects, no \<^verbatim>\<open>apolloState\<close> in it, no key of
  a work entity in the \<^verbatim>\<open>apolloState\<close>; and so does every other way in which
  \<^verbatim>\<open>fetchBookPageData\<close> returns \<^verbatim>\<open>null\<close>.
\<close>

theorem bootstrap_failures_collapse:
  assumes "url rq = Some target" and "target \<noteq> []" and "includes_str target ''goodreads.com''"
    and "bootstrapMode rq" and "fetch_page up target = Inr resp"
  shows "(\<not> ok resp \<longrightarrow>
            GET rt up rq = (\<lparr>status = 500, body = ErrorBody ''Failed to fetch book data''\<rparr>,
                            [PageFetch target]))
     \<and> (ok resp \<and> html resp = Inr doc
          \<and> (nextDataHtml doc = None \<or> nextDataHtml doc = Some []) \<longrightarrow>
            GET rt up rq = (\<lparr>status = 500, body = ErrorBody ''Failed to fetch book data''\<rparr>,
                            [PageFetch target]))
     \<and> (ok resp \<and> html resp = Inr doc \<and> nextDataHtml doc = Some script
          \<and> JSON_parse rt script = None \<longrightarrow>
            GET rt up rq = (\<lparr>status = 500, body = ErrorBody ''Failed to fetch book data''\<rparr>,
                            [PageFetch target]))
     \<and> (ok resp \<and> html resp = Inr doc \<and> nextDataHtml doc = Some script
          \<and> JSON_parse rt script = Some nextData \<and> \<not> truthy_val (apolloStateOf nextData) \<longrightarrow>
            GET rt up rq = (\<lparr>status = 500, body = ErrorBody ''Failed to fetch book data''\<rparr>,
                            [PageFetch target]))
     \<and> (ok resp \<and> html resp = Inr doc \<and> nextDataHtml doc = Some script
          \<and> JSON_parse rt script = Some nextData \<and> apolloStateOf nextData = Some st
          \<and> objectKeys (Some st) = Some keys
          \<and> find (\<lambda>k. startsWith k ''Work:kca://work/'') keys = None \<longrightarrow>
            GET rt up rq = (\<lparr>status = 500, body = ErrorBody ''Failed to fetch book data''\<rparr>,
                            [PageFetch target]))
     \<and> (fst (fetchBookPageData rt up target) = Inr None \<longrightarrow>
            GET rt up rq = (\<lparr>status = 500, body = ErrorBody ''Failed to fetch book data''\<rparr>,
                            [PageFetch target]))"
proof -
  let ?R = "GET rt up rq = (\<lparr>status = 500, body = ErrorBody ''Failed to fetch book data''\<rparr>,
                            [PageFetch target])"
  have null: ?R if "fst (fetchBookPageData rt up target) = Inr None"
    using GET_bootstrap [OF assms(1-4), of rt up] that by (simp add: failure_def)
  have status: ?R if "\<not> ok resp"
    using that assms(5) by (intro null) (simp add: fetchBookPageData_def)
  have parsed: ?R if "ok resp" and "html resp = Inr doc" and "parsePage rt doc = None" for doc
    using that assms(5) by (intro null) (simp add: fetchBookPageData_def)
  have element: "parsePage rt doc = None"
    if "nextDataHtml doc = None \<or> nextDataHtml doc = Some []"
    using that by (auto simp: parsePage_def)
  have json: "parsePage rt doc = None"
    if "nextDataHtml doc = Some script" and "JSON_parse rt script = None"
    using that by (simp add: parsePage_def)
  have state: "parsePage rt doc = None"
    if "nextDataHtml doc = Some script" and "JSON_parse rt script = Some nextData"
      and "\<not> truthy_val (apolloStateOf nextData)"
    using that by (cases "apolloStateOf nextData") (simp_all add: parsePage_def)
  have work: "parsePage rt doc = None"
    if "nextDataHtml doc = Some script" and "JSON_parse rt script = Some nextData"
      and "apolloStateOf nextData = Some st" and "objectKeys (Some st) = Some keys"
      and "find (\<lambda>k. startsWith k ''Work:kca://work/'') keys = None"
    using that readState_no_work [OF that(4,5), of rt doc nextData]
    by (simp add: parsePage_def)
  from null status parsed element json state work show ?thesis by blast
qed

theorem bootstrap_failures_collapse_witness:
  "GET sample_runtime failing_upstream first_request
     = (\<lparr>status = 500, body = ErrorBody ''Failed to fetch book data''\<rparr>, [PageFetch sample_url])
   \<and> GET sample_runtime broken_upstream first_request
     = (\<lparr>status = 500, body = ErrorBody ''Failed to fetch book data''\<rparr>, [PageFetch sample_url])
   \<and> JSON_parse sample_runtime ''{'' = None"
proof -
  have u: "url first_request = Some sample_url" by (simp add: first_request_def)
  have n: "sample_url \<noteq> []" by (simp add: sample_url_def)
  have i: "includes_str sample_url ''goodreads.com''" by code_simp
  have m: "bootstrapMode first_request" by code_simp
  have f1: "fetch_page failing_upstream sample_url = Inr \<lparr>ok = False, html = Inl Rejected\<rparr>"
    by (simp add: failing_upstream_def)
  have o1: "\<not> ok \<lparr>ok = False, html = Inl Rejected\<rparr>" by simp
  from bootstrap_failures_collapse [OF u n i m f1] o1
  have a: "GET sample_runtime failing_upstream first_request
     = (\<lparr>status = 500, body = ErrorBody ''Failed to fetch book data''\<rparr>, [PageFetch sample_url])"
    by blast
  have f2: "fetch_page broken_upstream sample_url = Inr \<lparr>ok = True, html = Inr broken_doc\<rparr>"
    by (simp add: broken_upstream_def)
  have o2: "ok \<lparr>ok = True, html = Inr broken_doc\<rparr>"
    "html \<lparr>ok = True, html = Inr broken_doc\<rparr> = Inr broken_doc" by simp_all
  have h2: "nextDataHtml broken_doc = Some ''{''" by (simp add: broken_doc_def)
  have j2: "JSON_parse sample_runtime ''{'' = None" by code_simp
  from bootstrap_failures_collapse [OF u n i m f2, where doc = broken_doc and script = "''{''"
      and rt = sample_runtime] o2 h2 j2
  have b: "GET sample_runtime broken_upstream first_request
     = (\<lparr>status = 500, body = ErrorBody ''Failed to fetch book data''\<rparr>, [PageFetch sample_url])"
    by blast
  from a b j2 show ?thesis by blast
qed

section \<open>The defaults of the normalizer\<close>




end
